theory Spec2Isabelle
  imports Main "HOL-Library.Multiset"
begin

section \<open>Data model\<close>

text \<open>
  The embedding follows \<^verbatim>\<open>src/UserAssociations.js\<close>. Room names, user names and socket
  ids are JavaScript strings. A promise is a function from the world to an outcome and the
  new world; \<^verbatim>\<open>yield\<close> and \<^verbatim>\<open>.then\<close> are sequencing, \<^verbatim>\<open>.catch\<close> is a handler
  on the rejected branch.
\<close>

type_synonym room = string
type_synonym user = string
type_synonym sid = string

datatype error =
    ChatServiceError string string
  | TimeoutError
  | LockTimeout
  | Failure string

datatype 'a outcome = Resolved 'a | Rejected error

text \<open>The object literal passed to \<^verbatim>\<open>consistencyFailure\<close>; an absent key is \<open>None\<close>.\<close>

record operationInfo =
  roomName :: "string option"
  id' :: "string option"
  opType :: string
  userName' :: "string option"

text \<open>
  Everything the class emits: \<^verbatim>\<open>server.emit\<close>, \<^verbatim>\<open>clusterBus.emit\<close>, and the report and
  echo methods mixed in from \<^verbatim>\<open>UserReports\<close>. An argument the caller leaves out
  (\<^verbatim>\<open>undefined\<close>) is \<open>None\<close>.
\<close>

datatype event =
    ServerEmit string error operationInfo
  | BusEmit string sid room
  | UserJoinRoomReport user room
  | UserLeftRoomReport user room "bool option"
  | UserRemovedReport user room "bool option"
  | SocketJoinEcho sid room nat bool
  | SocketLeftEcho sid room "nat option" "bool option"
  | SocketDisconnectEcho sid nat

text \<open>The asynchronous calls into the collaborators (state store, per-user membership
  store, room, transport, cluster bus).\<close>

datatype extcall =
    GetRoom | RoomJoin | RoomLeave | UserlistUpdatesGet | GetNotificationsInfo
  | LockToRoom | AddSocketToRoom | RemoveSocketFromRoom | RemoveAllSocketsFromRoom
  | UserStateAddSocket | UserStateRemoveSocket | StateAddSocket | StateRemoveSocket
  | JoinChannel | LeaveChannel | ClusterBusEmit

text \<open>What the cluster bus does with one acknowledgment wait: the acknowledgment event
  arrives after \<open>t\<close> ms, never arrives, or the emitter raises an error after \<open>t\<close> ms.\<close>

datatype ack = Ack nat | NoAck | WaitRejects nat error

text \<open>
  The world: the collaborators' state together with the environment's choices.
  \<^item> \<open>fails c n\<close> is the error with which the \<open>n\<close>-th call of \<open>c\<close> fails, if it fails;
    \<open>calls c\<close> counts the calls of \<open>c\<close> made so far;
  \<^item> \<open>acks\<close> is what the bus answers to the successive acknowledgment waits;
  \<^item> \<open>sched n\<close> is the order in which a fan-out over \<open>n\<close> items runs its workers;
  \<^item> \<open>clock\<close> is the time spent waiting, in ms;
  \<^item> \<open>roster\<close> is the room rosters, \<open>joined\<close> the per-user membership store (the sockets
    of this user and the rooms each has joined), \<open>connected\<close> the sockets of this user,
    \<open>registry\<close> the state store's socket index, \<open>channels\<close> and \<open>live\<close> the transport's
    subscriptions and open sockets, \<open>updates\<close> the rooms whose \<^verbatim>\<open>enableUserlistUpdates\<close>
    is set, \<open>locks\<close> the room locks held;
  \<^item> \<open>emitted\<close> is the events emitted so far, oldest first.
\<close>

record world =
  fails :: "extcall \<Rightarrow> nat \<Rightarrow> error option"
  calls :: "extcall \<Rightarrow> nat"
  acks :: "ack list"
  sched :: "nat \<Rightarrow> nat list"
  clock :: nat
  roster :: "(room \<times> user) list"
  joined :: "(sid \<times> room) list"
  connected :: "sid list"
  registry :: "(sid \<times> user) list"
  channels :: "(sid \<times> room) list"
  live :: "sid list"
  updates :: "room list"
  locks :: "room list"
  emitted :: "event list"

text \<open>The fields of \<^verbatim>\<open>this\<close> that the methods read.\<close>

record UserAssociations =
  userName :: user
  instanceUID :: string
  busAckTimeout :: nat
  lockTTL :: nat

type_synonym 'a promise = "world \<Rightarrow> 'a outcome \<times> world"

section \<open>Promise combinators (bluebird)\<close>

definition resolve :: "'a \<Rightarrow> 'a promise" where
  "resolve v = (\<lambda>w. (Resolved v, w))"

definition reject :: "error \<Rightarrow> 'a promise" where
  "reject e = (\<lambda>w. (Rejected e, w))"

definition thenP :: "'a promise \<Rightarrow> ('a \<Rightarrow> 'b promise) \<Rightarrow> 'b promise" where
  "thenP m f = (\<lambda>w. case m w of
      (Resolved x, w') \<Rightarrow> f x w'
    | (Rejected e, w') \<Rightarrow> (Rejected e, w'))"

definition catchP :: "'a promise \<Rightarrow> (error \<Rightarrow> 'a promise) \<Rightarrow> 'a promise" where
  "catchP m h = (\<lambda>w. case m w of
      (Resolved x, w') \<Rightarrow> (Resolved x, w')
    | (Rejected e, w') \<Rightarrow> h e w')"

definition catchReturn :: "'a \<Rightarrow> 'a promise \<Rightarrow> 'a promise" where
  "catchReturn v m = catchP m (\<lambda>e. resolve v)"

definition thenThrow :: "error \<Rightarrow> 'a promise \<Rightarrow> 'b promise" where
  "thenThrow e m = thenP m (\<lambda>x. reject e)"

text \<open>A synchronous statement with a side effect, inside a coroutine.\<close>

definition sync :: "(world \<Rightarrow> world) \<Rightarrow> unit promise" where
  "sync f = (\<lambda>w. (Resolved (), f w))"

text \<open>
  \<^verbatim>\<open>Promise.all([a, b, c])\<close>: the three calls are all started when the array is built, so
  each one takes its effect whether or not another fails. The effects are applied in the
  order of the array, and a rejection is the one of the first element that rejects.
\<close>

definition Promise_all3 ::
  "'a promise \<Rightarrow> 'b promise \<Rightarrow> 'c promise \<Rightarrow> ('a \<times> 'b \<times> 'c) promise" where
  "Promise_all3 a b c = (\<lambda>w.
     case a w of (ra, wa) \<Rightarrow>
     case b wa of (rb, wb) \<Rightarrow>
     case c wb of (rc, wc) \<Rightarrow>
       (case ra of Rejected e \<Rightarrow> Rejected e | Resolved x \<Rightarrow>
        (case rb of Rejected e \<Rightarrow> Rejected e | Resolved y \<Rightarrow>
         (case rc of Rejected e \<Rightarrow> Rejected e | Resolved z \<Rightarrow> Resolved (x, y, z))), wc))"

text \<open>
  \<^verbatim>\<open>Promise.map(xs, f, {concurrency})\<close>: the worker runs once for every item, in the order
  the scheduler chooses; an index the scheduler names outside the array is skipped. The
  results are returned in input order. A worker that rejects rejects the whole map. The
  concurrency bound limits how many workers are in flight; here a worker runs to its end
  before the next one starts.
\<close>

fun mapSeries ::
  "('a \<Rightarrow> nat \<Rightarrow> 'b promise) \<Rightarrow> 'a list \<Rightarrow> nat list \<Rightarrow> (nat \<times> 'b) list promise" where
  "mapSeries f xs [] w = (Resolved [], w)"
| "mapSeries f xs (i # js) w =
     (if i < length xs then
        (case f (xs ! i) i w of
           (Rejected e, w') \<Rightarrow> (Rejected e, w')
         | (Resolved y, w') \<Rightarrow>
             (case mapSeries f xs js w' of
                (Rejected e, w'') \<Rightarrow> (Rejected e, w'')
              | (Resolved ys, w'') \<Rightarrow> (Resolved ((i, y) # ys), w'')))
      else mapSeries f xs js w)"

definition Promise_map :: "'a list \<Rightarrow> ('a \<Rightarrow> nat \<Rightarrow> 'b promise) \<Rightarrow> 'b list promise" where
  "Promise_map xs f = (\<lambda>w.
     case mapSeries f xs (sched w (length xs)) w of
       (Rejected e, w') \<Rightarrow> (Rejected e, w')
     | (Resolved ys, w') \<Rightarrow> (Resolved (map snd (sort_key fst ys)), w'))"

text \<open>
  \<^verbatim>\<open>Promise.using(lock, body)\<close>: when the resource is acquired the body runs and the
  disposer runs after it, whatever the body's outcome; the outcome is the body's. When the
  acquisition rejects, the body does not run.
\<close>

definition Promise_using ::
  "unit promise \<Rightarrow> (world \<Rightarrow> world) \<Rightarrow> 'a promise \<Rightarrow> 'a promise" where
  "Promise_using acquire dispose body = (\<lambda>w.
     case acquire w of
       (Rejected e, w1) \<Rightarrow> (Rejected e, w1)
     | (Resolved u, w1) \<Rightarrow> (case body w1 of (r, w2) \<Rightarrow> (r, dispose w2)))"

text \<open>A promise watched over time: it settles after some ms, or never does.\<close>

datatype 'a timed = Settles nat "'a outcome" | Never

type_synonym 'a waiting = "world \<Rightarrow> 'a timed \<times> world"

text \<open>\<^verbatim>\<open>Promise.try(() => { first; return wait })\<close>: an error thrown by the first statement
  is a rejection, at once.\<close>

definition Promise_try :: "'a promise \<Rightarrow> 'b waiting \<Rightarrow> 'b waiting" where
  "Promise_try first wait = (\<lambda>w. case first w of
      (Rejected e, w') \<Rightarrow> (Settles 0 (Rejected e), w')
    | (Resolved x, w') \<Rightarrow> wait w')"

text \<open>\<^verbatim>\<open>.timeout(ms)\<close>: the outcome of the promise when it settles before \<open>ms\<close> have passed,
  a \<^verbatim>\<open>TimeoutError\<close> after \<open>ms\<close> otherwise. The clock advances by the time waited.\<close>

definition timeout :: "nat \<Rightarrow> 'a waiting \<Rightarrow> 'a promise" where
  "timeout ms m = (\<lambda>w. case m w of
      (Never, w') \<Rightarrow> (Rejected TimeoutError, w'\<lparr>clock := clock w' + ms\<rparr>)
    | (Settles t r, w') \<Rightarrow>
        (if t < ms then (r, w'\<lparr>clock := clock w' + t\<rparr>)
         else (Rejected TimeoutError, w'\<lparr>clock := clock w' + ms\<rparr>)))"

section \<open>Collaborators\<close>

text \<open>
  Modelled from the spec: the state store, the per-user membership store, the room object,
  the transport and the cluster bus are not part of the source file; they are modelled
  from their contracts in the spec (sections 3 and 6). Every asynchronous call may fail,
  as the environment decides; a call that fails has no effect.
\<close>

definition tick :: "extcall \<Rightarrow> world \<Rightarrow> world" where
  "tick c w = w\<lparr>calls := (calls w)(c := Suc (calls w c))\<rparr>"

definition call :: "extcall \<Rightarrow> (world \<Rightarrow> 'a \<times> world) \<Rightarrow> 'a promise" where
  "call c eff = (\<lambda>w.
     let w' = tick c w in
     case fails w c (calls w c) of
       Some e \<Rightarrow> (Rejected e, w')
     | None \<Rightarrow> (case eff w' of (v, w'') \<Rightarrow> (Resolved v, w'')))"

definition emit :: "event \<Rightarrow> world \<Rightarrow> world" where
  "emit ev w = w\<lparr>emitted := emitted w @ [ev]\<rparr>"

text \<open>\<open>njoined\<close>: the number of distinct sockets of the user joined to the room.\<close>

definition njoinedOf :: "world \<Rightarrow> room \<Rightarrow> nat" where
  "njoinedOf w r = length (remdups (map fst (filter (\<lambda>p. snd p = r) (joined w))))"

definition state_getRoom :: "room \<Rightarrow> room promise" where
  "state_getRoom r = call GetRoom (\<lambda>w. (r, w))"

definition room_join :: "room \<Rightarrow> user \<Rightarrow> unit promise" where
  "room_join r u = call RoomJoin (\<lambda>w. ((), w\<lparr>roster := List.insert (r, u) (roster w)\<rparr>))"

definition room_leave :: "room \<Rightarrow> user \<Rightarrow> unit promise" where
  "room_leave r u = call RoomLeave (\<lambda>w. ((), w\<lparr>roster := removeAll (r, u) (roster w)\<rparr>))"

definition roomState_userlistUpdatesGet :: "room \<Rightarrow> bool promise" where
  "roomState_userlistUpdatesGet r = call UserlistUpdatesGet (\<lambda>w. (r \<in> set (updates w), w))"

text \<open>The notification settings object; its \<^verbatim>\<open>enableUserlistUpdates\<close> key.\<close>

definition room_getNotificationsInfo :: "room \<Rightarrow> bool option promise" where
  "room_getNotificationsInfo r =
     call GetNotificationsInfo (\<lambda>w. (Some (r \<in> set (updates w)), w))"

text \<open>The lock is free or held; a held lock is not obtained in time.\<close>

definition userState_lockToRoom :: "room \<Rightarrow> nat \<Rightarrow> unit promise" where
  "userState_lockToRoom r ttl = (\<lambda>w.
     if r \<in> set (locks w) then (Rejected LockTimeout, w)
     else call LockToRoom (\<lambda>w. ((), w\<lparr>locks := r # locks w\<rparr>)) w)"

definition unlock :: "room \<Rightarrow> world \<Rightarrow> world" where
  "unlock r w = w\<lparr>locks := removeAll r (locks w)\<rparr>"

text \<open>\<open>hasChanged\<close>: the user's count in the room went from 0 to 1 (join), or to 0
  (leave).\<close>

definition userState_addSocketToRoom :: "sid \<Rightarrow> room \<Rightarrow> (nat \<times> bool) promise" where
  "userState_addSocketToRoom i r = call AddSocketToRoom (\<lambda>w.
     let w' = w\<lparr>joined := List.insert (i, r) (joined w)\<rparr> in
     ((njoinedOf w' r, njoinedOf w r = 0 \<and> 0 < njoinedOf w' r), w'))"

definition userState_removeSocketFromRoom :: "sid \<Rightarrow> room \<Rightarrow> (nat \<times> bool) promise" where
  "userState_removeSocketFromRoom i r = call RemoveSocketFromRoom (\<lambda>w.
     let w' = w\<lparr>joined := removeAll (i, r) (joined w)\<rparr> in
     ((njoinedOf w' r, 0 < njoinedOf w r \<and> njoinedOf w' r = 0), w'))"

definition userState_removeAllSocketsFromRoom :: "room \<Rightarrow> sid list promise" where
  "userState_removeAllSocketsFromRoom r = call RemoveAllSocketsFromRoom (\<lambda>w.
     (remdups (map fst (filter (\<lambda>p. snd p = r) (joined w))),
      w\<lparr>joined := filter (\<lambda>p. snd p \<noteq> r) (joined w)\<rparr>))"

definition userState_addSocket :: "sid \<Rightarrow> string \<Rightarrow> nat promise" where
  "userState_addSocket i uid = call UserStateAddSocket (\<lambda>w.
     let w' = w\<lparr>connected := List.insert i (connected w)\<rparr> in
     (length (remdups (connected w')), w'))"

text \<open>Returns the rooms the socket was in, the user's remaining count in each of them,
  and the user's remaining number of connections.\<close>

definition userState_removeSocket :: "sid \<Rightarrow> (room list \<times> nat list \<times> nat) promise" where
  "userState_removeSocket i = call UserStateRemoveSocket (\<lambda>w.
     let rooms = remdups (map snd (filter (\<lambda>p. fst p = i) (joined w)));
         w' = w\<lparr>joined := filter (\<lambda>p. fst p \<noteq> i) (joined w),
                connected := removeAll i (connected w)\<rparr> in
     ((rooms, map (njoinedOf w') rooms, length (remdups (connected w'))), w'))"

definition state_addSocket :: "sid \<Rightarrow> user \<Rightarrow> unit promise" where
  "state_addSocket i u =
     call StateAddSocket (\<lambda>w. ((), w\<lparr>registry := List.insert (i, u) (registry w)\<rparr>))"

definition state_removeSocket :: "sid \<Rightarrow> unit promise" where
  "state_removeSocket i =
     call StateRemoveSocket (\<lambda>w. ((), w\<lparr>registry := filter (\<lambda>p. fst p \<noteq> i) (registry w)\<rparr>))"

definition transport_joinChannel :: "sid \<Rightarrow> room \<Rightarrow> unit promise" where
  "transport_joinChannel i r =
     call JoinChannel (\<lambda>w. ((), w\<lparr>channels := List.insert (i, r) (channels w)\<rparr>))"

definition transport_leaveChannel :: "sid \<Rightarrow> room \<Rightarrow> unit promise" where
  "transport_leaveChannel i r =
     call LeaveChannel (\<lambda>w. ((), w\<lparr>channels := removeAll (i, r) (channels w)\<rparr>))"

text \<open>\<^verbatim>\<open>transport.getSocket(id)\<close> is synchronous; the model keeps whether the handle is
  there.\<close>

definition transport_getSocket :: "world \<Rightarrow> sid \<Rightarrow> bool" where
  "transport_getSocket w i = (i \<in> set (live w))"

definition bus_emit :: "string \<Rightarrow> sid \<Rightarrow> room \<Rightarrow> unit promise" where
  "bus_emit name i r = call ClusterBusEmit (\<lambda>w. ((), emit (BusEmit name i r) w))"

text \<open>The name of the acknowledgment event is derived from the socket and the room.\<close>

definition makeSocketRoomLeftName :: "sid \<Rightarrow> room \<Rightarrow> sid \<times> room" where
  "makeSocketRoomLeftName i r = (i, r)"

definition eventToPromise :: "sid \<times> room \<Rightarrow> unit waiting" where
  "eventToPromise name = (\<lambda>w. case acks w of
      [] \<Rightarrow> (Never, w)
    | a # rest \<Rightarrow>
        (case a of
           Ack t \<Rightarrow> Settles t (Resolved ())
         | NoAck \<Rightarrow> Never
         | WaitRejects t e \<Rightarrow> Settles t (Rejected e), w\<lparr>acks := rest\<rparr>))"

text \<open>
  Modelled from the spec: the report and echo methods come from the \<^verbatim>\<open>UserReports\<close> mixin,
  which is not part of the source file. They are fire-and-forget notifications; each is
  modelled as the event that records the call and its arguments.
\<close>

definition userJoinRoomReport :: "user \<Rightarrow> room \<Rightarrow> world \<Rightarrow> world" where
  "userJoinRoomReport u r = emit (UserJoinRoomReport u r)"

definition userLeftRoomReport :: "user \<Rightarrow> room \<Rightarrow> bool option \<Rightarrow> world \<Rightarrow> world" where
  "userLeftRoomReport u r enableUserlistUpdates = emit (UserLeftRoomReport u r enableUserlistUpdates)"

definition userRemovedReport :: "user \<Rightarrow> room \<Rightarrow> bool option \<Rightarrow> world \<Rightarrow> world" where
  "userRemovedReport u r enableUserlistUpdates = emit (UserRemovedReport u r enableUserlistUpdates)"

definition socketJoinEcho :: "sid \<Rightarrow> room \<Rightarrow> nat \<Rightarrow> bool \<Rightarrow> world \<Rightarrow> world" where
  "socketJoinEcho i r njoined isLocalCall = emit (SocketJoinEcho i r njoined isLocalCall)"

definition socketLeftEcho :: "sid \<Rightarrow> room \<Rightarrow> nat option \<Rightarrow> bool option \<Rightarrow> world \<Rightarrow> world" where
  "socketLeftEcho i r njoined isLocalCall = emit (SocketLeftEcho i r njoined isLocalCall)"

definition socketDisconnectEcho :: "sid \<Rightarrow> nat \<Rightarrow> world \<Rightarrow> world" where
  "socketDisconnectEcho i nconnected = emit (SocketDisconnectEcho i nconnected)"

section \<open>The class UserAssociations\<close>

definition consistencyFailure :: "UserAssociations \<Rightarrow> error \<Rightarrow> operationInfo \<Rightarrow> world \<Rightarrow> world" where
  "consistencyFailure this err operationInfo =
     (let operationInfo = operationInfo\<lparr>userName' := Some (userName this)\<rparr>;
          name = (if opType operationInfo = ''transportChannel''
                  then ''transportConsistencyFailure''
                  else ''storeConsistencyFailure'')
      in emit (ServerEmit name err operationInfo))"

definition leaveChannel :: "UserAssociations \<Rightarrow> sid \<Rightarrow> room \<Rightarrow> unit promise" where
  "leaveChannel this i channel =
     catchP (transport_leaveChannel i channel) (\<lambda>e.
       let info = \<lparr>roomName = Some channel, id' = Some i,
                   opType = ''transportChannel'', userName' = None\<rparr>
       in sync (consistencyFailure this e info))"

definition socketLeaveChannels :: "UserAssociations \<Rightarrow> sid \<Rightarrow> room list \<Rightarrow> unit list promise" where
  "socketLeaveChannels this i chans =
     Promise_map chans (\<lambda>channel idx. leaveChannel this i channel)"

definition leaveChannelMessage :: "UserAssociations \<Rightarrow> sid \<Rightarrow> room \<Rightarrow> unit promise" where
  "leaveChannelMessage this i channel =
     catchReturn ()
       (timeout (busAckTimeout this)
          (Promise_try (bus_emit ''roomLeaveSocket'' i channel)
             (eventToPromise (makeSocketRoomLeftName i channel))))"

definition channelLeaveSockets :: "UserAssociations \<Rightarrow> room \<Rightarrow> sid list \<Rightarrow> unit list promise" where
  "channelLeaveSockets this channel ids =
     Promise_map ids (\<lambda>i idx. leaveChannelMessage this i channel)"

definition leaveRoom :: "UserAssociations \<Rightarrow> room \<Rightarrow> unit promise" where
  "leaveRoom this rn =
     catchReturn ()
       (thenP (state_getRoom rn) (\<lambda>room.
          catchP (room_leave room (userName this)) (\<lambda>e.
            sync (consistencyFailure this e
              \<lparr>roomName = Some rn, id' = None, opType = ''roomUserlist'', userName' = None\<rparr>))))"

text \<open>In \<^verbatim>\<open>rollbackRoomJoin\<close> the handler's \<^verbatim>\<open>[1]\<close> has no second element; only the first
  one is read.\<close>

definition rollbackRoomJoin :: "UserAssociations \<Rightarrow> error \<Rightarrow> room \<Rightarrow> sid \<Rightarrow> 'a promise" where
  "rollbackRoomJoin this err rn i =
     thenThrow err
       (thenP
          (catchP (userState_removeSocketFromRoom i rn) (\<lambda>e.
             thenP (sync (consistencyFailure this e
                      \<lparr>roomName = Some rn, id' = None, opType = ''userRooms'', userName' = None\<rparr>))
               (\<lambda>u. resolve (1, False))))
          (\<lambda>(njoined, hasChanged).
             if njoined = 0 then leaveRoom this rn else resolve ()))"

text \<open>On any error the settings object is \<^verbatim>\<open>{}\<close>, whose \<^verbatim>\<open>enableUserlistUpdates\<close> is
  \<^verbatim>\<open>undefined\<close>.\<close>

definition getNotifySettings :: "UserAssociations \<Rightarrow> room \<Rightarrow> bool option promise" where
  "getNotifySettings this rn =
     catchReturn None
       (thenP (state_getRoom rn) (\<lambda>room. room_getNotificationsInfo room))"

definition joinSocketToRoom :: "UserAssociations \<Rightarrow> sid \<Rightarrow> room \<Rightarrow> bool \<Rightarrow> nat promise" where
  "joinSocketToRoom this i rn isLocalCall =
     Promise_using (userState_lockToRoom rn (lockTTL this)) (unlock rn)
       (thenP (state_getRoom rn) (\<lambda>room.
        thenP (room_join room (userName this)) (\<lambda>u.
        catchP
          (thenP (Promise_all3
                    (roomState_userlistUpdatesGet room)
                    (userState_addSocketToRoom i rn)
                    (transport_joinChannel i rn))
             (\<lambda>(enableUserlistUpdates, (njoined, hasChanged), u).
                thenP (sync (\<lambda>w.
                   if hasChanged then
                     socketJoinEcho i rn njoined isLocalCall
                       (if njoined = 1 \<and> enableUserlistUpdates
                        then userJoinRoomReport (userName this) rn w else w)
                   else w))
                  (\<lambda>u. resolve njoined)))
          (\<lambda>e. rollbackRoomJoin this e rn i))))"

definition leaveSocketFromRoom :: "UserAssociations \<Rightarrow> sid \<Rightarrow> room \<Rightarrow> bool \<Rightarrow> nat promise" where
  "leaveSocketFromRoom this i rn isLocalCall =
     Promise_using (userState_lockToRoom rn (lockTTL this)) (unlock rn)
       (thenP (Promise_all3
                 (getNotifySettings this rn)
                 (userState_removeSocketFromRoom i rn)
                 (leaveChannel this i rn))
          (\<lambda>(enableUserlistUpdates, (njoined, hasChanged), u).
             thenP (if njoined = 0 then leaveRoom this rn else resolve ()) (\<lambda>u.
             thenP (sync (\<lambda>w.
                if hasChanged then
                  userLeftRoomReport (userName this) rn enableUserlistUpdates
                    (socketLeftEcho i rn (Some njoined) (Some isLocalCall) w)
                else w))
               (\<lambda>u. resolve njoined))))"

text \<open>
  In \<^verbatim>\<open>removeUserSocket\<close> the defaults \<^verbatim>\<open>|| []\<close> and \<^verbatim>\<open>|| 0\<close> leave an array and a number
  as they are. \<^verbatim>\<open>joinedSockets[idx]\<close> beyond the end of the array is \<^verbatim>\<open>undefined\<close>, which
  is falsy as 0 is.
\<close>

definition nth_opt :: "'a list \<Rightarrow> nat \<Rightarrow> 'a option" where
  "nth_opt xs i = (if i < length xs then Some (xs ! i) else None)"

definition truthy :: "nat option \<Rightarrow> bool" where
  "truthy v = (case v of None \<Rightarrow> False | Some n \<Rightarrow> n \<noteq> 0)"

text \<open>The worker that \<^verbatim>\<open>removeUserSocket\<close> passes to \<^verbatim>\<open>Promise.map\<close> (lines 152 to 160), with
  the variables it captures as parameters.\<close>

definition removeUserSocket_room ::
  "UserAssociations \<Rightarrow> sid \<Rightarrow> nat list \<Rightarrow> room \<Rightarrow> nat \<Rightarrow> unit promise" where
  "removeUserSocket_room this i joinedSockets rn idx =
     (let njoined = nth_opt joinedSockets idx in
      thenP (sync (socketLeftEcho i rn njoined None)) (\<lambda>u.
      if truthy njoined then resolve ()
      else thenP (leaveRoom this rn) (\<lambda>u.
           thenP (getNotifySettings this rn) (\<lambda>enableUserlistUpdates.
           sync (userLeftRoomReport (userName this) rn enableUserlistUpdates)))))"

definition removeUserSocket :: "UserAssociations \<Rightarrow> sid \<Rightarrow> unit promise" where
  "removeUserSocket this i =
     catchP
       (thenP (userState_removeSocket i) (\<lambda>(roomsRemoved, joinedSockets, nconnected).
        thenP (socketLeaveChannels this i roomsRemoved) (\<lambda>u.
        thenP (Promise_map roomsRemoved (removeUserSocket_room this i joinedSockets)) (\<lambda>u.
        thenP (sync (socketDisconnectEcho i nconnected)) (\<lambda>u.
        state_removeSocket i)))))
       (\<lambda>e.
          let info = \<lparr>roomName = None, id' = Some i, opType = ''userSockets'', userName' = None\<rparr>
          in sync (consistencyFailure this e info))"

definition addUserSocket :: "UserAssociations \<Rightarrow> sid \<Rightarrow> nat promise" where
  "addUserSocket this i =
     thenP (state_addSocket i (userName this)) (\<lambda>u.
     thenP (userState_addSocket i (instanceUID this)) (\<lambda>nconnected w.
       if \<not> transport_getSocket w i then
         thenP (removeUserSocket this i) (\<lambda>u.
           let err = ChatServiceError ''noSocket'' ''connection''
           in reject err) w
       else resolve nconnected w))"

text \<open>When the store call fails the handler's result is \<^verbatim>\<open>undefined\<close>, which the caller
  replaces by \<^verbatim>\<open>[]\<close>.\<close>

definition removeUserSocketsFromRoom :: "UserAssociations \<Rightarrow> room \<Rightarrow> sid list option promise" where
  "removeUserSocketsFromRoom this rn =
     catchP (thenP (userState_removeAllSocketsFromRoom rn) (\<lambda>ids. resolve (Some ids))) (\<lambda>e.
       let info = \<lparr>roomName = Some rn, id' = None, opType = ''roomUserlist'', userName' = None\<rparr>
       in thenP (sync (consistencyFailure this e info)) (\<lambda>u. resolve None))"

definition removeFromRoom :: "UserAssociations \<Rightarrow> room \<Rightarrow> unit promise" where
  "removeFromRoom this rn =
     Promise_using (userState_lockToRoom rn (lockTTL this)) (unlock rn)
       (thenP (removeUserSocketsFromRoom this rn) (\<lambda>removedSockets.
        let removedSockets = (case removedSockets of None \<Rightarrow> [] | Some ids \<Rightarrow> ids) in
        thenP (channelLeaveSockets this rn removedSockets) (\<lambda>u.
        thenP (if removedSockets \<noteq> [] then
                 thenP (getNotifySettings this rn) (\<lambda>enableUserlistUpdates.
                   sync (userRemovedReport (userName this) rn enableUserlistUpdates))
               else resolve ()) (\<lambda>u.
        leaveRoom this rn))))"

section \<open>Notions used in the statements\<close>

text \<open>A property of the world that an operation preserves, whatever its outcome; and an
  operation that resolves in every world.\<close>

definition keeps :: "(world \<Rightarrow> bool) \<Rightarrow> (world \<Rightarrow> 'a \<times> world) \<Rightarrow> bool" where
  "keeps P m \<longleftrightarrow> (\<forall>w. P w \<longrightarrow> P (snd (m w)))"

definition never_rejects :: "'a promise \<Rightarrow> bool" where
  "never_rejects m \<longleftrightarrow> (\<forall>w. \<exists>x. fst (m w) = Resolved x)"

text \<open>A world in which nothing has happened yet and no collaborator fails, whose
  scheduler runs the workers of a fan-out (of at most three items) in input order; and a
  user.\<close>

definition idle :: world where
  "idle = \<lparr>fails = (\<lambda>c n. None), calls = (\<lambda>c. 0), acks = [], sched = (\<lambda>n. [0, 1, 2]),
            clock = 0, roster = [], joined = [], connected = [], registry = [],
            channels = [], live = [], updates = [], locks = [], emitted = []\<rparr>"

definition alice :: UserAssociations where
  "alice = \<lparr>userName = ''alice'', instanceUID = ''i1'', busAckTimeout = 5000, lockTTL = 2000\<rparr>"


fun isSocketJoinEcho :: "event \<Rightarrow> bool" where
  "isSocketJoinEcho (SocketJoinEcho i r n l) = True"
| "isSocketJoinEcho ev = False"

fun isServerEmit :: "event \<Rightarrow> bool" where
  "isServerEmit (ServerEmit name e info) = True"
| "isServerEmit ev = False"

text \<open>Worlds in which the first socket of the user is in the lobby, and some collaborator
  calls fail.\<close>

definition failing :: "extcall list \<Rightarrow> extcall \<Rightarrow> nat \<Rightarrow> error option" where
  "failing cs = (\<lambda>c n. if c \<in> set cs then Some (Failure ''down'') else None)"

definition inLobby :: world where
  "inLobby = idle\<lparr>joined := [(''s1'', ''lobby'')], roster := [(''lobby'', ''alice'')]\<rparr>"

text \<open>The first error among the outcomes the environment has chosen for the three
  concurrent operations of a join, in the order of the array.\<close>

definition step3Error :: "world \<Rightarrow> error option" where
  "step3Error w =
     (case fails w UserlistUpdatesGet (calls w UserlistUpdatesGet) of
        Some e \<Rightarrow> Some e
      | None \<Rightarrow>
         (case fails w AddSocketToRoom (calls w AddSocketToRoom) of
            Some e \<Rightarrow> Some e
          | None \<Rightarrow> fails w JoinChannel (calls w JoinChannel)))"

fun isUserSocketsReport :: "event \<Rightarrow> bool" where
  "isUserSocketsReport (ServerEmit name e info) = (opType info = ''userSockets'')"
| "isUserSocketsReport ev = False"

text \<open>What the steps of the disconnect cleanup between the two store calls leave as it
  is: the environment's choices, the number of bookkeeping removals made, the registered
  sockets, and the \<^verbatim>\<open>userSockets\<close> reports emitted.\<close>

definition cleanupFrame :: "world \<Rightarrow> world \<Rightarrow> bool" where
  "cleanupFrame w x \<longleftrightarrow>
     fails x = fails w \<and> sched x = sched w \<and>
     calls x StateRemoveSocket = calls w StateRemoveSocket \<and>
     connected x = connected w \<and> registry x = registry w \<and>
     filter isUserSocketsReport (emitted x) = filter isUserSocketsReport (emitted w)"







section \<open>Consistency-failure reporting\<close>

text \<open>
  C10. Every call of \<^verbatim>\<open>consistencyFailure\<close> sets the acting user's name on the operation
  info and emits exactly one event: \<^verbatim>\<open>transportConsistencyFailure\<close> when the operation
  type is \<^verbatim>\<open>transportChannel\<close>, \<^verbatim>\<open>storeConsistencyFailure\<close> for every other operation type.
  The call is a total function of the world: it returns, and changes nothing but the list
  of emitted events.
\<close>

theorem consistencyFailure_event:
  "consistencyFailure this err info w =
     w\<lparr>emitted := emitted w @
        [ServerEmit
           (if opType info = ''transportChannel''
            then ''transportConsistencyFailure'' else ''storeConsistencyFailure'')
           err (info\<lparr>userName' := Some (userName this)\<rparr>)]\<rparr>"
  by (simp add: consistencyFailure_def emit_def Let_def)

section \<open>Reasoning about promises\<close>

lemma keepsD: "keeps P m \<Longrightarrow> P w \<Longrightarrow> P (snd (m w))"
  by (simp add: keeps_def)

lemma keeps_resolve: "keeps P (resolve v)"
  by (simp add: keeps_def resolve_def)

lemma keeps_reject: "keeps P (reject e)"
  by (simp add: keeps_def reject_def)

lemma keeps_thenP: "keeps P m \<Longrightarrow> (\<And>x. keeps P (f x)) \<Longrightarrow> keeps P (thenP m f)"
  unfolding keeps_def thenP_def
  by (auto split: prod.splits outcome.splits)

lemma keeps_catchP: "keeps P m \<Longrightarrow> (\<And>e. keeps P (h e)) \<Longrightarrow> keeps P (catchP m h)"
  unfolding keeps_def catchP_def
  by (auto split: prod.splits outcome.splits)

lemma keeps_catchReturn: "keeps P m \<Longrightarrow> keeps P (catchReturn v m)"
  unfolding catchReturn_def by (intro keeps_catchP keeps_resolve)

lemma keeps_thenThrow: "keeps P m \<Longrightarrow> keeps P (thenThrow e m)"
  unfolding thenThrow_def by (intro keeps_thenP keeps_reject)

lemma keeps_sync: "(\<And>w. P w \<Longrightarrow> P (f w)) \<Longrightarrow> keeps P (sync f)"
  by (simp add: keeps_def sync_def)

lemma keeps_all3: "keeps P a \<Longrightarrow> keeps P b \<Longrightarrow> keeps P c \<Longrightarrow> keeps P (Promise_all3 a b c)"
  unfolding keeps_def Promise_all3_def
  by (auto split: prod.splits; metis snd_conv)

lemma keeps_mapSeries: "(\<And>x i. keeps P (f x i)) \<Longrightarrow> keeps P (mapSeries f xs ord)"
proof (induction ord)
  case Nil
  show ?case by (simp add: keeps_def)
next
  case (Cons i js)
  have step: "\<And>w. P w \<Longrightarrow> P (snd (f (xs ! i) i w))"
    using Cons.prems by (simp add: keeps_def)
  have rest: "\<And>w. P w \<Longrightarrow> P (snd (mapSeries f xs js w))"
    using Cons.IH Cons.prems by (simp add: keeps_def)
  show ?case
    unfolding keeps_def
  proof (intro allI impI)
    fix w assume pw: "P w"
    show "P (snd (mapSeries f xs (i # js) w))"
    proof (cases "i < length xs")
      case False
      then show ?thesis using rest[OF pw] by simp
    next
      case True
      obtain r w1 where r: "f (xs ! i) i w = (r, w1)" by (cases "f (xs ! i) i w")
      have p1: "P w1" using step[OF pw] r by simp
      show ?thesis
      proof (cases r)
        case (Rejected e)
        then show ?thesis using True r p1 by simp
      next
        case (Resolved y)
        obtain r2 w2 where r2: "mapSeries f xs js w1 = (r2, w2)" by (cases "mapSeries f xs js w1")
        have "P w2" using rest[OF p1] r2 by simp
        then show ?thesis using True r Resolved r2 by (cases r2) simp_all
      qed
    qed
  qed
qed

lemma keeps_map: "(\<And>x i. keeps P (f x i)) \<Longrightarrow> keeps P (Promise_map xs f)"
proof -
  assume a: "\<And>x i. keeps P (f x i)"
  have "\<And>ord w. P w \<Longrightarrow> P (snd (mapSeries f xs ord w))"
    using keeps_mapSeries[of P f xs, OF a] by (simp add: keeps_def)
  then show ?thesis
    unfolding keeps_def Promise_map_def
    by (auto split: prod.splits outcome.splits; metis snd_conv)
qed

lemma keeps_call:
  "(\<And>w. P w \<Longrightarrow> P (tick c w)) \<Longrightarrow> (\<And>w. P w \<Longrightarrow> P (snd (eff w))) \<Longrightarrow> keeps P (call c eff)"
  unfolding keeps_def call_def Let_def
  by (auto split: option.splits prod.splits; metis snd_conv)

lemma keeps_timeout:
  "keeps P m \<Longrightarrow> (\<And>w t. P w \<Longrightarrow> P (w\<lparr>clock := t\<rparr>)) \<Longrightarrow> keeps P (timeout ms m)"
  unfolding keeps_def timeout_def
  by (auto split: prod.splits timed.splits; metis snd_conv)

lemma keeps_try: "keeps P a \<Longrightarrow> keeps P b \<Longrightarrow> keeps P (Promise_try a b)"
  unfolding keeps_def Promise_try_def
  by (auto split: prod.splits outcome.splits)

lemma keeps_if: "keeps P a \<Longrightarrow> keeps P b \<Longrightarrow> keeps P (if c then a else b)"
  by simp

subsection \<open>Operations that never reject\<close>

lemma nr_resolve: "never_rejects (resolve v)"
  by (simp add: never_rejects_def resolve_def)

lemma nr_sync: "never_rejects (sync f)"
  by (simp add: never_rejects_def sync_def)

lemma nr_thenP: "never_rejects m \<Longrightarrow> (\<And>x. never_rejects (f x)) \<Longrightarrow> never_rejects (thenP m f)"
  unfolding never_rejects_def thenP_def
  by (auto split: prod.splits outcome.splits; metis fst_conv outcome.distinct(1))

lemma nr_catchP: "(\<And>e. never_rejects (h e)) \<Longrightarrow> never_rejects (catchP m h)"
  unfolding never_rejects_def catchP_def
  by (auto split: prod.splits outcome.splits)

lemma nr_catchReturn: "never_rejects (catchReturn v m)"
  unfolding catchReturn_def by (intro nr_catchP nr_resolve)

lemma nr_mapSeries: "(\<And>x i. never_rejects (f x i)) \<Longrightarrow> never_rejects (mapSeries f xs ord)"
proof (induction ord)
  case Nil
  show ?case by (simp add: never_rejects_def)
next
  case (Cons i js)
  have step: "\<And>w. \<exists>y. fst (f (xs ! i) i w) = Resolved y"
    using Cons.prems by (simp add: never_rejects_def)
  have rest: "\<And>w. \<exists>ys. fst (mapSeries f xs js w) = Resolved ys"
    using Cons.IH Cons.prems by (simp add: never_rejects_def)
  show ?case
    unfolding never_rejects_def
  proof
    fix w
    show "\<exists>ys. fst (mapSeries f xs (i # js) w) = Resolved ys"
    proof (cases "i < length xs")
      case False
      then show ?thesis using rest[of w] by simp
    next
      case True
      obtain y w1 where r: "f (xs ! i) i w = (Resolved y, w1)"
        using step[of w] by (cases "f (xs ! i) i w") auto
      obtain ys w2 where r2: "mapSeries f xs js w1 = (Resolved ys, w2)"
        using rest[of w1] by (cases "mapSeries f xs js w1") auto
      show ?thesis using True r r2 by simp
    qed
  qed
qed

lemma nr_map: "(\<And>x i. never_rejects (f x i)) \<Longrightarrow> never_rejects (Promise_map xs f)"
proof -
  assume a: "\<And>x i. never_rejects (f x i)"
  have "\<And>ord w. \<exists>ys. fst (mapSeries f xs ord w) = Resolved ys"
    using nr_mapSeries[of f xs, OF a] by (simp add: never_rejects_def)
  then show ?thesis
    unfolding never_rejects_def Promise_map_def
    by (auto split: prod.splits outcome.splits; metis fst_conv outcome.distinct(1))
qed

lemma nr_if: "never_rejects a \<Longrightarrow> never_rejects b \<Longrightarrow> never_rejects (if c then a else b)"
  by simp

lemma nr_leaveChannel: "never_rejects (leaveChannel this i ch)"
  unfolding leaveChannel_def Let_def by (intro nr_catchP nr_sync)

lemma nr_leaveRoom: "never_rejects (leaveRoom this rn)"
  unfolding leaveRoom_def by (rule nr_catchReturn)

lemma nr_getNotifySettings: "never_rejects (getNotifySettings this rn)"
  unfolding getNotifySettings_def by (rule nr_catchReturn)

lemma nr_leaveChannelMessage: "never_rejects (leaveChannelMessage this i ch)"
  unfolding leaveChannelMessage_def by (rule nr_catchReturn)

lemma nr_removeUserSocket: "never_rejects (removeUserSocket this i)"
  unfolding removeUserSocket_def Let_def by (intro nr_catchP nr_sync)


lemma keeps_case_prod: "(\<And>a b. keeps P (f a b)) \<Longrightarrow> keeps P (case_prod f x)"
  by (cases x) simp

lemma keeps_case_prod2: "(\<And>a b. keeps P (f a b c)) \<Longrightarrow> keeps P (case_prod f x c)"
  by (cases x) simp

lemma keeps_using:
  "keeps P a \<Longrightarrow> keeps P b \<Longrightarrow> (\<And>w. P w \<Longrightarrow> P (d w)) \<Longrightarrow> keeps P (Promise_using a d b)"
  unfolding keeps_def Promise_using_def
  by (auto split: prod.splits outcome.splits; metis snd_conv)

lemmas keeps_intros =
  keeps_resolve keeps_reject keeps_thenP keeps_catchP keeps_catchReturn keeps_thenThrow
  keeps_all3 keeps_map keeps_call keeps_timeout keeps_try keeps_if keeps_case_prod
  keeps_case_prod2 keeps_sync

lemma nr_case_prod: "(\<And>a b. never_rejects (f a b)) \<Longrightarrow> never_rejects (case_prod f x)"
  by (cases x) simp

lemma never_rejectsD: "never_rejects m \<Longrightarrow> \<exists>x w'. m w = (Resolved x, w')"
  unfolding never_rejects_def by (metis prod.collapse)

subsection \<open>Resolved runs, step by step\<close>

lemma thenP_Resolved:
  "thenP m f w = (Resolved y, w') \<longleftrightarrow> (\<exists>x w1. m w = (Resolved x, w1) \<and> f x w1 = (Resolved y, w'))"
  by (auto simp: thenP_def split: prod.splits outcome.splits)

lemma catchP_Resolved:
  "catchP m h w = (Resolved y, w') \<longleftrightarrow>
     m w = (Resolved y, w') \<or> (\<exists>e w1. m w = (Rejected e, w1) \<and> h e w1 = (Resolved y, w'))"
  by (auto simp: catchP_def split: prod.splits outcome.splits)

lemma using_Resolved:
  "Promise_using a d b w = (Resolved y, w') \<longleftrightarrow>
     (\<exists>u w1 w2. a w = (Resolved u, w1) \<and> b w1 = (Resolved y, w2) \<and> w' = d w2)"
  by (auto simp: Promise_using_def split: prod.splits outcome.splits)

lemma all3_Resolved:
  "Promise_all3 a b c w = (Resolved v, w') \<longleftrightarrow>
     (\<exists>x y z wa wb. a w = (Resolved x, wa) \<and> b wa = (Resolved y, wb) \<and>
        c wb = (Resolved z, w') \<and> v = (x, y, z))"
  by (auto simp: Promise_all3_def split: prod.splits outcome.splits)

lemma call_Resolved:
  "call c eff w = (Resolved v, w') \<longleftrightarrow>
     fails w c (calls w c) = None \<and> eff (tick c w) = (v, w')"
  by (auto simp: call_def Let_def split: prod.splits option.splits)

lemma call_Rejected:
  "call c eff w = (Rejected e, w') \<longleftrightarrow> fails w c (calls w c) = Some e \<and> w' = tick c w"
  by (auto simp: call_def Let_def split: prod.splits option.splits)

lemma thenThrow_not_Resolved: "thenThrow e m w \<noteq> (Resolved y, w')"
  by (auto simp: thenThrow_def thenP_def reject_def split: prod.splits outcome.splits)

lemma rollbackRoomJoin_not_Resolved: "rollbackRoomJoin this e rn i w \<noteq> (Resolved y, w')"
  unfolding rollbackRoomJoin_def by (rule thenThrow_not_Resolved)

section \<open>The room lock\<close>

lemmas method_defs =
  leaveChannel_def socketLeaveChannels_def leaveChannelMessage_def channelLeaveSockets_def
  leaveRoom_def rollbackRoomJoin_def getNotifySettings_def removeUserSocketsFromRoom_def
  removeUserSocket_room_def

lemmas collaborator_defs =
  state_getRoom_def room_join_def room_leave_def roomState_userlistUpdatesGet_def
  room_getNotificationsInfo_def userState_addSocketToRoom_def
  userState_removeSocketFromRoom_def userState_removeAllSocketsFromRoom_def
  userState_addSocket_def userState_removeSocket_def state_addSocket_def
  state_removeSocket_def transport_joinChannel_def transport_leaveChannel_def bus_emit_def

lemmas report_defs =
  consistencyFailure_def userJoinRoomReport_def userLeftRoomReport_def userRemovedReport_def
  socketJoinEcho_def socketLeftEcho_def socketDisconnectEcho_def emit_def

lemma keeps_eventToPromise:
  "(\<And>w a. P w \<Longrightarrow> P (w\<lparr>acks := a\<rparr>)) \<Longrightarrow> keeps P (eventToPromise name)"
  unfolding keeps_def eventToPromise_def
  by (auto split: list.splits ack.splits)

lemma using_lock_released:
  assumes body: "\<And>L. keeps (\<lambda>w. locks w = L) body"
  shows "locks (snd (Promise_using (userState_lockToRoom rn ttl) (unlock rn) body w)) = locks w"
proof (cases "rn \<in> set (locks w)")
  case True
  then show ?thesis
    by (simp add: Promise_using_def userState_lockToRoom_def)
next
  case free: False
  show ?thesis
  proof (cases "fails w LockToRoom (calls w LockToRoom)")
    case (Some e)
    then show ?thesis using free
      by (simp add: Promise_using_def userState_lockToRoom_def call_def tick_def Let_def)
  next
    case None
    define w1 where "w1 = (tick LockToRoom w)\<lparr>locks := rn # locks (tick LockToRoom w)\<rparr>"
    have held: "locks w1 = rn # locks w"
      by (simp add: w1_def tick_def)
    have acq: "userState_lockToRoom rn ttl w = (Resolved (), w1)"
      using free None by (simp add: userState_lockToRoom_def call_def Let_def w1_def)
    have "locks (snd (body w1)) = rn # locks w"
      using body[of "rn # locks w"] held by (simp add: keeps_def)
    then have "locks (unlock rn (snd (body w1))) = locks w"
      using free by (simp add: unlock_def)
    then show ?thesis
      using acq by (auto simp: Promise_using_def split: prod.splits)
  qed
qed

lemma joinSocketToRoom_locks:
  "locks (snd (joinSocketToRoom this i rn isLocalCall w)) = locks w"
  unfolding joinSocketToRoom_def
  by (rule using_lock_released, unfold method_defs collaborator_defs Let_def)
     (intro keeps_intros; simp add: tick_def report_defs Let_def)

lemma leaveSocketFromRoom_locks:
  "locks (snd (leaveSocketFromRoom this i rn isLocalCall w)) = locks w"
  unfolding leaveSocketFromRoom_def
  by (rule using_lock_released, unfold method_defs collaborator_defs Let_def)
     (intro keeps_intros; simp add: tick_def report_defs Let_def)

lemma removeFromRoom_locks:
  "locks (snd (removeFromRoom this rn w)) = locks w"
  unfolding removeFromRoom_def
  by (rule using_lock_released, unfold method_defs collaborator_defs Let_def)
     (intro keeps_intros keeps_eventToPromise; simp add: tick_def report_defs Let_def)

text \<open>
  C8. For every execution of \<^verbatim>\<open>joinSocketToRoom\<close>, \<^verbatim>\<open>leaveSocketFromRoom\<close> and
  \<^verbatim>\<open>removeFromRoom\<close>, whatever the collaborators do (every call inside the guarded section
  may resolve or reject), the locks held when the call has settled are the locks held
  before it: the room lock taken at entry has been released, on the normal return as on
  every rejection.
\<close>

theorem room_lock_released:
  "locks (snd (joinSocketToRoom this i rn isLocalCall w)) = locks w \<and>
   locks (snd (leaveSocketFromRoom this i rn isLocalCall w)) = locks w \<and>
   locks (snd (removeFromRoom this rn w)) = locks w"
  by (simp add: joinSocketToRoom_locks leaveSocketFromRoom_locks removeFromRoom_locks)

section \<open>The cluster leave notification\<close>

text \<open>
  C4. For every invocation of \<^verbatim>\<open>leaveChannelMessage(id, channel)\<close> and every behaviour of
  the cluster bus (the publish raises an error, the acknowledgment arrives after any
  delay, the wait raises an error after any delay, the acknowledgment never arrives), the
  call resolves, and the time waited is at most the bus-acknowledgment timeout.
\<close>

theorem leaveChannelMessage_resolves:
  "\<exists>w'. leaveChannelMessage this i ch w = (Resolved (), w') \<and>
         clock w' \<le> clock w + busAckTimeout this"
  by (auto simp: leaveChannelMessage_def catchReturn_def catchP_def timeout_def Promise_try_def
      bus_emit_def call_def eventToPromise_def resolve_def emit_def tick_def Let_def
      split: prod.splits outcome.splits option.splits timed.splits list.splits ack.splits
             if_splits)

section \<open>Joining a room\<close>

lemmas combinator_defs =
  resolve_def reject_def thenP_def catchP_def catchReturn_def thenThrow_def sync_def
  Promise_all3_def Promise_map_def Promise_using_def Promise_try_def timeout_def
  call_def tick_def userState_lockToRoom_def unlock_def eventToPromise_def
  makeSocketRoomLeftName_def transport_getSocket_def njoinedOf_def nth_opt_def truthy_def

lemmas run_defs =
  joinSocketToRoom_def leaveSocketFromRoom_def removeUserSocket_def addUserSocket_def
  removeFromRoom_def method_defs collaborator_defs report_defs combinator_defs
  idle_def alice_def Let_def

lemma lockToRoom_Resolved:
  "userState_lockToRoom rn ttl w = (Resolved u, w') \<longleftrightarrow>
     rn \<notin> set (locks w) \<and> fails w LockToRoom (calls w LockToRoom) = None \<and>
     w' = (tick LockToRoom w)\<lparr>locks := rn # locks w\<rparr>"
  by (auto simp: userState_lockToRoom_def call_Resolved tick_def reject_def)

lemma sync_Resolved: "sync f w = (Resolved u, w') \<longleftrightarrow> w' = f w"
  by (auto simp: sync_def)

lemma resolve_Resolved: "resolve v w = (Resolved y, w') \<longleftrightarrow> y = v \<and> w' = w"
  by (auto simp: resolve_def)

lemma addSocketToRoom_emitted:
  "userState_addSocketToRoom i rn w1 = (r, w2) \<Longrightarrow> emitted w2 = emitted w1"
  by (auto simp: userState_addSocketToRoom_def call_def tick_def Let_def split: option.splits)

text \<open>A join that resolves: the increment was called in a world whose membership store is
  the one before the join, and what it returned decides the events.\<close>

lemma joinSocketToRoom_success:
  assumes "joinSocketToRoom this i rn isLocalCall w = (Resolved n, w')"
  shows "\<exists>w1 w2 hasChanged.
           joined w1 = joined w \<and>
           userState_addSocketToRoom i rn w1 = (Resolved (n, hasChanged), w2) \<and>
           emitted w' = emitted w @
             (if hasChanged \<and> n = 1 \<and> rn \<in> set (updates w)
              then [UserJoinRoomReport (userName this) rn] else []) @
             (if hasChanged then [SocketJoinEcho i rn n isLocalCall] else [])"
  using assms
  unfolding joinSocketToRoom_def
  apply (clarsimp simp: using_Resolved thenP_Resolved catchP_Resolved all3_Resolved
      rollbackRoomJoin_not_Resolved lockToRoom_Resolved sync_Resolved resolve_Resolved
      state_getRoom_def room_join_def roomState_userlistUpdatesGet_def
      transport_joinChannel_def call_Resolved simp del: split_paired_Ex split del: if_split)
  apply (frule addSocketToRoom_emitted)
  apply (intro exI conjI)
    prefer 2
    apply assumption
   apply (simp add: tick_def)
  apply (simp add: tick_def unlock_def report_defs)
  done



text \<open>
  C2 fails as stated: a socket that is already in the room joins it again; the increment
  returns \<open>hasChanged = false\<close>, the join resolves, and no "joined" echo is emitted.
\<close>

theorem joinSocketToRoom_echo_counterexample:
  "fst (joinSocketToRoom alice ''s1'' ''lobby'' True (idle\<lparr>joined := [(''s1'', ''lobby'')]\<rparr>)) =
     Resolved 1 \<and>
   emitted (snd (joinSocketToRoom alice ''s1'' ''lobby'' True
                   (idle\<lparr>joined := [(''s1'', ''lobby'')]\<rparr>))) = []"
  by (simp add: run_defs)

text \<open>
  C2, amended. For every \<^verbatim>\<open>joinSocketToRoom\<close> execution that resolves, the per-socket
  "joined" echo (carrying \<open>njoined\<close> and tagged with \<^verbatim>\<open>isLocalCall\<close>) is emitted exactly when
  the \<open>hasChanged\<close> returned by the shared-store increment is true, and then once.
\<close>

theorem joinSocketToRoom_echo:
  assumes "joinSocketToRoom this i rn isLocalCall w = (Resolved n, w')"
  shows "\<exists>w1 w2 hasChanged evs.
           joined w1 = joined w \<and>
           userState_addSocketToRoom i rn w1 = (Resolved (n, hasChanged), w2) \<and>
           emitted w' = emitted w @ evs \<and>
           filter isSocketJoinEcho evs =
             (if hasChanged then [SocketJoinEcho i rn n isLocalCall] else [])"
proof -
  from joinSocketToRoom_success[OF assms] obtain w1 w2 hasChanged where
    j: "joined w1 = joined w" and
    a: "userState_addSocketToRoom i rn w1 = (Resolved (n, hasChanged), w2)" and
    e: "emitted w' = emitted w @
             (if hasChanged \<and> n = 1 \<and> rn \<in> set (updates w)
              then [UserJoinRoomReport (userName this) rn] else []) @
             (if hasChanged then [SocketJoinEcho i rn n isLocalCall] else [])"
    by blast
  show ?thesis
    by (intro exI conjI, rule j, rule a, rule e) simp
qed

text \<open>The first socket of a user joins an empty room: the echo is emitted.\<close>

theorem joinSocketToRoom_echo_witness:
  "joinSocketToRoom alice ''s1'' ''lobby'' True idle =
     (Resolved 1, snd (joinSocketToRoom alice ''s1'' ''lobby'' True idle)) \<and>
   (\<exists>w1 w2 hasChanged evs.
      joined w1 = joined idle \<and>
      userState_addSocketToRoom ''s1'' ''lobby'' w1 = (Resolved (1, hasChanged), w2) \<and>
      emitted (snd (joinSocketToRoom alice ''s1'' ''lobby'' True idle)) = emitted idle @ evs \<and>
      filter isSocketJoinEcho evs =
        (if hasChanged then [SocketJoinEcho ''s1'' ''lobby'' 1 True] else []))"
proof -
  have h: "joinSocketToRoom alice ''s1'' ''lobby'' True idle =
     (Resolved 1, snd (joinSocketToRoom alice ''s1'' ''lobby'' True idle))"
    by (simp add: prod_eq_iff run_defs)
  show ?thesis
    by (rule conjI[OF h joinSocketToRoom_echo[OF h]])
qed

section \<open>Leaving a room\<close>

subsection \<open>What the small methods do, in every case\<close>

lemma fun_upd_same_other: "b \<noteq> a \<Longrightarrow> (f(a := x))(b := f b) = f(a := x)"
  by (auto simp: fun_eq_iff)

lemma getNotifySettings_run:
  "getNotifySettings this rn w =
     (Resolved
        (case fails w GetRoom (calls w GetRoom) of
           Some e \<Rightarrow> None
         | None \<Rightarrow>
            (case fails w GetNotificationsInfo (calls w GetNotificationsInfo) of
               Some e \<Rightarrow> None
             | None \<Rightarrow> Some (rn \<in> set (updates w)))),
      w\<lparr>calls := (calls w)
           (GetRoom := Suc (calls w GetRoom),
            GetNotificationsInfo :=
              (case fails w GetRoom (calls w GetRoom) of
                 Some e \<Rightarrow> calls w GetNotificationsInfo
               | None \<Rightarrow> Suc (calls w GetNotificationsInfo)))\<rparr>)"
  by (auto simp: getNotifySettings_def state_getRoom_def room_getNotificationsInfo_def
      catchReturn_def catchP_def thenP_def call_def resolve_def tick_def Let_def fun_upd_same_other
      split: option.splits)

lemma leaveRoom_run:
  "leaveRoom this rn w =
     (Resolved (),
      w\<lparr>calls := (calls w)
           (GetRoom := Suc (calls w GetRoom),
            RoomLeave :=
              (case fails w GetRoom (calls w GetRoom) of
                 Some e \<Rightarrow> calls w RoomLeave
               | None \<Rightarrow> Suc (calls w RoomLeave))),
         roster :=
           (case fails w GetRoom (calls w GetRoom) of
              Some e \<Rightarrow> roster w
            | None \<Rightarrow>
               (case fails w RoomLeave (calls w RoomLeave) of
                  Some e \<Rightarrow> roster w
                | None \<Rightarrow> removeAll (rn, userName this) (roster w))),
         emitted := emitted w @
           (case fails w GetRoom (calls w GetRoom) of
              Some e \<Rightarrow> []
            | None \<Rightarrow>
               (case fails w RoomLeave (calls w RoomLeave) of
                  Some e \<Rightarrow>
                    [ServerEmit ''storeConsistencyFailure'' e
                       \<lparr>roomName = Some rn, id' = None, opType = ''roomUserlist'',
                        userName' = Some (userName this)\<rparr>]
                | None \<Rightarrow> []))\<rparr>)"
  by (auto simp: leaveRoom_def state_getRoom_def room_leave_def sync_def
      catchReturn_def catchP_def thenP_def call_def resolve_def tick_def Let_def
      consistencyFailure_def emit_def fun_upd_same_other
      split: option.splits)

lemma leaveChannel_run:
  "leaveChannel this i ch w =
     (Resolved (),
      w\<lparr>calls := (calls w)(LeaveChannel := Suc (calls w LeaveChannel)),
         channels :=
           (case fails w LeaveChannel (calls w LeaveChannel) of
              Some e \<Rightarrow> channels w
            | None \<Rightarrow> removeAll (i, ch) (channels w)),
         emitted := emitted w @
           (case fails w LeaveChannel (calls w LeaveChannel) of
              Some e \<Rightarrow>
                [ServerEmit ''transportConsistencyFailure'' e
                   \<lparr>roomName = Some ch, id' = Some i, opType = ''transportChannel'',
                    userName' = Some (userName this)\<rparr>]
            | None \<Rightarrow> [])\<rparr>)"
  by (auto simp: leaveChannel_def transport_leaveChannel_def sync_def
      catchP_def call_def tick_def Let_def consistencyFailure_def emit_def
      split: option.splits)

lemmas leave_run =
  leaveSocketFromRoom_def Promise_using_def userState_lockToRoom_def Promise_all3_def
  getNotifySettings_run leaveRoom_run leaveChannel_run userState_removeSocketFromRoom_def
  call_def thenP_def sync_def resolve_def unlock_def Let_def

subsection \<open>Errors of the sub-steps\<close>

lemma leave_rejects:
  assumes "rn \<notin> set (locks w)" "fails w LockToRoom (calls w LockToRoom) = None"
    "fails w RemoveSocketFromRoom (calls w RemoveSocketFromRoom) = Some e"
  shows "fst (leaveSocketFromRoom this i rn isLocalCall w) = Rejected e"
  using assms
  by (simp add: leave_run tick_def split: option.splits)

lemma leave_resolves:
  assumes "rn \<notin> set (locks w)" "fails w LockToRoom (calls w LockToRoom) = None"
    "fails w RemoveSocketFromRoom (calls w RemoveSocketFromRoom) = None"
  shows "fst (leaveSocketFromRoom this i rn isLocalCall w) =
     Resolved (njoinedOf (w\<lparr>joined := removeAll (i, rn) (joined w)\<rparr>) rn)"
  using assms
  by (simp add: leave_run tick_def njoinedOf_def split: option.splits)

lemma leave_reports_transport:
  assumes "rn \<notin> set (locks w)" "fails w LockToRoom (calls w LockToRoom) = None"
    "fails w LeaveChannel (calls w LeaveChannel) = Some e"
  shows "ServerEmit ''transportConsistencyFailure'' e
           \<lparr>roomName = Some rn, id' = Some i, opType = ''transportChannel'',
            userName' = Some (userName this)\<rparr>
         \<in> set (emitted (snd (leaveSocketFromRoom this i rn isLocalCall w)))"
  using assms
  by (simp add: leave_run tick_def report_defs split: option.splits)

lemma leave_reports_roster:
  assumes "rn \<notin> set (locks w)" "fails w LockToRoom (calls w LockToRoom) = None"
    "fails w RemoveSocketFromRoom (calls w RemoveSocketFromRoom) = None"
    "njoinedOf (w\<lparr>joined := removeAll (i, rn) (joined w)\<rparr>) rn = 0"
    "fails w GetRoom (Suc (calls w GetRoom)) = None"
    "fails w RoomLeave (calls w RoomLeave) = Some e"
  shows "ServerEmit ''storeConsistencyFailure'' e
           \<lparr>roomName = Some rn, id' = None, opType = ''roomUserlist'',
            userName' = Some (userName this)\<rparr>
         \<in> set (emitted (snd (leaveSocketFromRoom this i rn isLocalCall w)))"
  using assms
  by (simp add: leave_run tick_def report_defs njoinedOf_def split: option.splits)

lemma leave_silent:
  assumes "rn \<notin> set (locks w)" "fails w LockToRoom (calls w LockToRoom) = None"
    "fails w LeaveChannel (calls w LeaveChannel) = None"
    "fails w RoomLeave (calls w RoomLeave) = None"
  shows "filter isServerEmit (emitted (snd (leaveSocketFromRoom this i rn isLocalCall w))) =
         filter isServerEmit (emitted w)"
  using assms
  by (simp add: leave_run tick_def report_defs split: option.splits)

text \<open>
  C3 fails as stated. In the first run the shared-store decrement fails: the call rejects
  with that error, and nothing is reported. In the second run the room lookup of the
  notification-config read fails: the call resolves, and nothing is reported.
\<close>

theorem leaveSocketFromRoom_absorbs_counterexample:
  "fst (leaveSocketFromRoom alice ''s1'' ''lobby'' True
          (inLobby\<lparr>fails := failing [RemoveSocketFromRoom]\<rparr>)) = Rejected (Failure ''down'') \<and>
   emitted (snd (leaveSocketFromRoom alice ''s1'' ''lobby'' True
          (inLobby\<lparr>fails := failing [RemoveSocketFromRoom]\<rparr>))) = [] \<and>
   fst (leaveSocketFromRoom alice ''s1'' ''lobby'' True
          (inLobby\<lparr>fails := (\<lambda>c n. if c = GetRoom \<and> n = 0 then Some (Failure ''down'') else None)\<rparr>)) =
     Resolved 0 \<and>
   filter isServerEmit (emitted (snd (leaveSocketFromRoom alice ''s1'' ''lobby'' True
          (inLobby\<lparr>fails := (\<lambda>c n. if c = GetRoom \<and> n = 0 then Some (Failure ''down'') else None)\<rparr>)))) = []"
  by (simp add: run_defs inLobby_def failing_def)

text \<open>
  C3, amended. For every \<^verbatim>\<open>leaveSocketFromRoom\<close> execution that acquires the room lock:
  \<^item> an error of the shared-store decrement is propagated, the call rejects with it; when
    the decrement succeeds the call resolves with its \<open>njoined\<close>, whatever the other
    sub-steps do;
  \<^item> an error of the transport unsubscribe is reported as a transport consistency failure;
  \<^item> an error of the roster's \<^verbatim>\<open>room.leave\<close> is reported as a store consistency failure;
  \<^item> when neither of these two fails, no consistency failure is reported: an error of the
    notification-config read or of a room lookup is absorbed without a report.
\<close>

theorem leaveSocketFromRoom_errors:
  assumes "rn \<notin> set (locks w)" and "fails w LockToRoom (calls w LockToRoom) = None"
  shows
   "(case fails w RemoveSocketFromRoom (calls w RemoveSocketFromRoom) of
       Some e \<Rightarrow> fst (leaveSocketFromRoom this i rn isLocalCall w) = Rejected e
     | None \<Rightarrow> fst (leaveSocketFromRoom this i rn isLocalCall w) =
         Resolved (njoinedOf (w\<lparr>joined := removeAll (i, rn) (joined w)\<rparr>) rn)) \<and>
    (\<forall>e. fails w LeaveChannel (calls w LeaveChannel) = Some e \<longrightarrow>
       ServerEmit ''transportConsistencyFailure'' e
           \<lparr>roomName = Some rn, id' = Some i, opType = ''transportChannel'',
            userName' = Some (userName this)\<rparr>
         \<in> set (emitted (snd (leaveSocketFromRoom this i rn isLocalCall w)))) \<and>
    (\<forall>e. fails w RemoveSocketFromRoom (calls w RemoveSocketFromRoom) = None \<and>
         njoinedOf (w\<lparr>joined := removeAll (i, rn) (joined w)\<rparr>) rn = 0 \<and>
         fails w GetRoom (Suc (calls w GetRoom)) = None \<and>
         fails w RoomLeave (calls w RoomLeave) = Some e \<longrightarrow>
       ServerEmit ''storeConsistencyFailure'' e
           \<lparr>roomName = Some rn, id' = None, opType = ''roomUserlist'',
            userName' = Some (userName this)\<rparr>
         \<in> set (emitted (snd (leaveSocketFromRoom this i rn isLocalCall w)))) \<and>
    (fails w LeaveChannel (calls w LeaveChannel) = None \<and>
     fails w RoomLeave (calls w RoomLeave) = None \<longrightarrow>
       filter isServerEmit (emitted (snd (leaveSocketFromRoom this i rn isLocalCall w))) =
       filter isServerEmit (emitted w))"
proof (intro conjI allI impI)
  show "case fails w RemoveSocketFromRoom (calls w RemoveSocketFromRoom) of
       Some e \<Rightarrow> fst (leaveSocketFromRoom this i rn isLocalCall w) = Rejected e
     | None \<Rightarrow> fst (leaveSocketFromRoom this i rn isLocalCall w) =
         Resolved (njoinedOf (w\<lparr>joined := removeAll (i, rn) (joined w)\<rparr>) rn)"
    using leave_rejects[OF assms] leave_resolves[OF assms]
    by (cases "fails w RemoveSocketFromRoom (calls w RemoveSocketFromRoom)") simp_all
next
  fix e assume "fails w LeaveChannel (calls w LeaveChannel) = Some e"
  then show "ServerEmit ''transportConsistencyFailure'' e
           \<lparr>roomName = Some rn, id' = Some i, opType = ''transportChannel'',
            userName' = Some (userName this)\<rparr>
         \<in> set (emitted (snd (leaveSocketFromRoom this i rn isLocalCall w)))"
    by (rule leave_reports_transport[OF assms])
next
  fix e assume "fails w RemoveSocketFromRoom (calls w RemoveSocketFromRoom) = None \<and>
         njoinedOf (w\<lparr>joined := removeAll (i, rn) (joined w)\<rparr>) rn = 0 \<and>
         fails w GetRoom (Suc (calls w GetRoom)) = None \<and>
         fails w RoomLeave (calls w RoomLeave) = Some e"
  then show "ServerEmit ''storeConsistencyFailure'' e
           \<lparr>roomName = Some rn, id' = None, opType = ''roomUserlist'',
            userName' = Some (userName this)\<rparr>
         \<in> set (emitted (snd (leaveSocketFromRoom this i rn isLocalCall w)))"
    using leave_reports_roster[OF assms] by blast
next
  assume "fails w LeaveChannel (calls w LeaveChannel) = None \<and>
     fails w RoomLeave (calls w RoomLeave) = None"
  then show "filter isServerEmit (emitted (snd (leaveSocketFromRoom this i rn isLocalCall w))) =
       filter isServerEmit (emitted w)"
    using leave_silent[OF assms] by blast
qed

text \<open>The last socket of the user leaves the lobby while the transport and the roster
  both fail: the call resolves with 0 and both failures are reported.\<close>

theorem leaveSocketFromRoom_errors_witness:
  "''lobby'' \<notin> set (locks (inLobby\<lparr>fails := failing [LeaveChannel, RoomLeave]\<rparr>)) \<and>
   fails (inLobby\<lparr>fails := failing [LeaveChannel, RoomLeave]\<rparr>) LockToRoom
     (calls (inLobby\<lparr>fails := failing [LeaveChannel, RoomLeave]\<rparr>) LockToRoom) = None \<and>
   fst (leaveSocketFromRoom alice ''s1'' ''lobby'' True
          (inLobby\<lparr>fails := failing [LeaveChannel, RoomLeave]\<rparr>)) = Resolved 0 \<and>
   ServerEmit ''transportConsistencyFailure'' (Failure ''down'')
       \<lparr>roomName = Some ''lobby'', id' = Some ''s1'', opType = ''transportChannel'',
        userName' = Some ''alice''\<rparr>
     \<in> set (emitted (snd (leaveSocketFromRoom alice ''s1'' ''lobby'' True
          (inLobby\<lparr>fails := failing [LeaveChannel, RoomLeave]\<rparr>)))) \<and>
   ServerEmit ''storeConsistencyFailure'' (Failure ''down'')
       \<lparr>roomName = Some ''lobby'', id' = None, opType = ''roomUserlist'',
        userName' = Some ''alice''\<rparr>
     \<in> set (emitted (snd (leaveSocketFromRoom alice ''s1'' ''lobby'' True
          (inLobby\<lparr>fails := failing [LeaveChannel, RoomLeave]\<rparr>))))"
proof -
  let ?w = "inLobby\<lparr>fails := failing [LeaveChannel, RoomLeave]\<rparr>"
  have free: "''lobby'' \<notin> set (locks ?w)"
    by (simp add: inLobby_def idle_def)
  have lock: "fails ?w LockToRoom (calls ?w LockToRoom) = None"
    by (simp add: inLobby_def idle_def failing_def)
  have env: "fails ?w RemoveSocketFromRoom (calls ?w RemoveSocketFromRoom) = None"
    "fails ?w LeaveChannel (calls ?w LeaveChannel) = Some (Failure ''down'')"
    "fails ?w RoomLeave (calls ?w RoomLeave) = Some (Failure ''down'')"
    "fails ?w GetRoom (Suc (calls ?w GetRoom)) = None"
    "njoinedOf (?w\<lparr>joined := removeAll (''s1'', ''lobby'') (joined ?w)\<rparr>) ''lobby'' = 0"
    "userName alice = ''alice''"
    by (simp_all add: inLobby_def idle_def failing_def njoinedOf_def alice_def)
  show ?thesis
    using free lock leaveSocketFromRoom_errors[OF free lock, of alice "''s1''" True]
    by (simp only: env option.case) blast
qed

section \<open>Compensation of a failed join\<close>

lemma removeAll_insert_same: "removeAll x (List.insert x xs) = removeAll x xs"
  by (simp add: List.insert_def)

lemma userlistUpdatesGet_run:
  "roomState_userlistUpdatesGet r w =
     (case fails w UserlistUpdatesGet (calls w UserlistUpdatesGet) of
        Some e \<Rightarrow> Rejected e
      | None \<Rightarrow> Resolved (r \<in> set (updates w)),
      w\<lparr>calls := (calls w)(UserlistUpdatesGet := Suc (calls w UserlistUpdatesGet))\<rparr>)"
  by (simp add: roomState_userlistUpdatesGet_def call_def tick_def Let_def split: option.splits)

lemma addSocketToRoom_run:
  "userState_addSocketToRoom i r w =
     (case fails w AddSocketToRoom (calls w AddSocketToRoom) of
        Some e \<Rightarrow> Rejected e
      | None \<Rightarrow>
          Resolved (njoinedOf (w\<lparr>joined := List.insert (i, r) (joined w)\<rparr>) r,
                    njoinedOf w r = 0 \<and>
                    0 < njoinedOf (w\<lparr>joined := List.insert (i, r) (joined w)\<rparr>) r),
      w\<lparr>calls := (calls w)(AddSocketToRoom := Suc (calls w AddSocketToRoom)),
         joined :=
           (case fails w AddSocketToRoom (calls w AddSocketToRoom) of
              Some e \<Rightarrow> joined w
            | None \<Rightarrow> List.insert (i, r) (joined w))\<rparr>)"
  by (simp add: userState_addSocketToRoom_def call_def tick_def Let_def njoinedOf_def
      split: option.splits)

lemma joinChannel_run:
  "transport_joinChannel i r w =
     (case fails w JoinChannel (calls w JoinChannel) of
        Some e \<Rightarrow> Rejected e
      | None \<Rightarrow> Resolved (),
      w\<lparr>calls := (calls w)(JoinChannel := Suc (calls w JoinChannel)),
         channels :=
           (case fails w JoinChannel (calls w JoinChannel) of
              Some e \<Rightarrow> channels w
            | None \<Rightarrow> List.insert (i, r) (channels w))\<rparr>)"
  by (simp add: transport_joinChannel_def call_def tick_def Let_def split: option.splits)

text \<open>The compensation always rejects, with the error it was given.\<close>

lemma thenThrow_fst: "never_rejects m \<Longrightarrow> fst (thenThrow e m w) = Rejected e"
  using never_rejectsD[of m w]
  by (auto simp: thenThrow_def thenP_def reject_def)

lemma rollbackRoomJoin_fst: "fst (rollbackRoomJoin this err rn i w) = Rejected err"
  unfolding rollbackRoomJoin_def
  by (intro thenThrow_fst nr_thenP nr_catchP nr_sync nr_resolve nr_case_prod nr_if nr_leaveRoom)

lemma rollbackRoomJoin_world:
  assumes "fails w RemoveSocketFromRoom (calls w RemoveSocketFromRoom) = None"
  shows "snd (rollbackRoomJoin this err rn i w :: 'a outcome \<times> world) =
     (let w1 = w\<lparr>calls := (calls w)(RemoveSocketFromRoom := Suc (calls w RemoveSocketFromRoom)),
                  joined := removeAll (i, rn) (joined w)\<rparr>
      in if njoinedOf w1 rn = 0 then snd (leaveRoom this rn w1) else w1)"
  using assms
  by (simp add: rollbackRoomJoin_def thenThrow_def thenP_def catchP_def reject_def resolve_def
      userState_removeSocketFromRoom_def call_def tick_def Let_def leaveRoom_run njoinedOf_def)

lemma using_lock_acquired:
  assumes "rn \<notin> set (locks w)" and "fails w LockToRoom (calls w LockToRoom) = None"
  shows "Promise_using (userState_lockToRoom rn ttl) (unlock rn) body w =
     (fst (body (w\<lparr>calls := (calls w)(LockToRoom := Suc (calls w LockToRoom)),
                      locks := rn # locks w\<rparr>)),
      unlock rn (snd (body (w\<lparr>calls := (calls w)(LockToRoom := Suc (calls w LockToRoom)),
                      locks := rn # locks w\<rparr>))))"
  using assms
  by (simp add: Promise_using_def userState_lockToRoom_def call_def tick_def Let_def split_beta)

lemma thenP_call_ok:
  "fails w c (calls w c) = None \<Longrightarrow>
   thenP (call c eff) f w = f (fst (eff (tick c w))) (snd (eff (tick c w)))"
  by (simp add: thenP_def call_def Let_def split_beta)

lemma step3_rejected:
  assumes "step3Error w = Some e"
  shows "\<exists>w3. Promise_all3 (roomState_userlistUpdatesGet rn) (userState_addSocketToRoom i rn)
           (transport_joinChannel i rn) w = (Rejected e, w3) \<and>
         fails w3 = fails w \<and> emitted w3 = emitted w \<and> roster w3 = roster w \<and>
         locks w3 = locks w \<and>
         calls w3 RemoveSocketFromRoom = calls w RemoveSocketFromRoom \<and>
         calls w3 GetRoom = calls w GetRoom \<and> calls w3 RoomLeave = calls w RoomLeave \<and>
         joined w3 =
              (case fails w AddSocketToRoom (calls w AddSocketToRoom) of
                 Some e \<Rightarrow> joined w
               | None \<Rightarrow> List.insert (i, rn) (joined w))"
  using assms
  by (simp add: Promise_all3_def userlistUpdatesGet_run addSocketToRoom_run joinChannel_run
      step3Error_def split: option.splits)

text \<open>A join that has taken the lock, found the room and joined the roster, and whose
  third step fails: the compensation runs in a world \<open>w3\<close> in which the three concurrent
  operations have taken their effects.\<close>

lemma joinSocketToRoom_failed:
  assumes "rn \<notin> set (locks w)"
    and "fails w LockToRoom (calls w LockToRoom) = None"
    and "fails w GetRoom (calls w GetRoom) = None"
    and "fails w RoomJoin (calls w RoomJoin) = None"
    and "step3Error w = Some e"
  shows "\<exists>w3. joinSocketToRoom this i rn isLocalCall w =
           (Rejected e, unlock rn (snd (rollbackRoomJoin this e rn i w3 :: nat outcome \<times> world))) \<and>
         fails w3 = fails w \<and> emitted w3 = emitted w \<and>
         roster w3 = List.insert (rn, userName this) (roster w) \<and>
         calls w3 RemoveSocketFromRoom = calls w RemoveSocketFromRoom \<and>
         calls w3 GetRoom = Suc (calls w GetRoom) \<and> calls w3 RoomLeave = calls w RoomLeave \<and>
         joined w3 =
              (case fails w AddSocketToRoom (calls w AddSocketToRoom) of
                 Some e \<Rightarrow> joined w
               | None \<Rightarrow> List.insert (i, rn) (joined w))"
proof -
  define w0 where "w0 = w\<lparr>locks := rn # locks w,
      calls := (calls w)
        (LockToRoom := Suc (calls w LockToRoom), GetRoom := Suc (calls w GetRoom),
         RoomJoin := Suc (calls w RoomJoin)),
      roster := List.insert (rn, userName this) (roster w)\<rparr>"
  have "step3Error w0 = Some e"
    using assms(5) by (simp add: step3Error_def w0_def split: option.splits)
  from step3_rejected[OF this, of rn i] obtain w3 where
    s3: "Promise_all3 (roomState_userlistUpdatesGet rn) (userState_addSocketToRoom i rn)
           (transport_joinChannel i rn) w0 = (Rejected e, w3)" and
    fr: "fails w3 = fails w0" "emitted w3 = emitted w0" "roster w3 = roster w0"
        "calls w3 RemoveSocketFromRoom = calls w0 RemoveSocketFromRoom"
        "calls w3 GetRoom = calls w0 GetRoom" "calls w3 RoomLeave = calls w0 RoomLeave"
        "joined w3 =
              (case fails w0 AddSocketToRoom (calls w0 AddSocketToRoom) of
                 Some e \<Rightarrow> joined w0
               | None \<Rightarrow> List.insert (i, rn) (joined w0))"
    by blast
  have run: "joinSocketToRoom this i rn isLocalCall w =
           (Rejected e, unlock rn (snd (rollbackRoomJoin this e rn i w3 :: nat outcome \<times> world)))"
    unfolding joinSocketToRoom_def
    apply (subst using_lock_acquired[OF assms(1,2)])
    apply (simp add: state_getRoom_def room_join_def thenP_call_ok assms(3,4) tick_def)
    apply (simp add: catchP_def thenP_def s3[unfolded w0_def] rollbackRoomJoin_fst)
    done
  show ?thesis
    using run fr by (intro exI[of _ w3]) (simp add: w0_def split: option.splits)
qed

lemma rollback_restores_count:
  assumes "fails w3 RemoveSocketFromRoom (calls w3 RemoveSocketFromRoom) = None"
  shows "joined (unlock rn (snd (rollbackRoomJoin this e rn i w3 :: nat outcome \<times> world))) =
         removeAll (i, rn) (joined w3)"
  by (simp add: rollbackRoomJoin_world[OF assms] Let_def leaveRoom_run unlock_def)

lemma rollback_leaves_roster:
  assumes "fails w3 RemoveSocketFromRoom (calls w3 RemoveSocketFromRoom) = None"
    and "njoinedOf (w3\<lparr>joined := removeAll (i, rn) (joined w3)\<rparr>) rn = 0"
    and "fails w3 GetRoom (calls w3 GetRoom) = None"
    and "fails w3 RoomLeave (calls w3 RoomLeave) = None"
  shows "roster (unlock rn (snd (rollbackRoomJoin this e rn i w3 :: nat outcome \<times> world))) =
         removeAll (rn, userName this) (roster w3)"
  using assms
  by (simp add: rollbackRoomJoin_world[OF assms(1)] Let_def leaveRoom_run unlock_def njoinedOf_def)

text \<open>
  C1 fails as stated. First run: the transport subscription fails and the compensating
  removal fails too; the count stays at 1, above its value of 0 before the join. Second
  run: the socket is already in the room, the transport subscription fails, and the
  compensation removes the membership that was there before; the count goes from 1 to 0.
  Third run: the compensating removal shows that \<open>njoined\<close> is 0, the roster's
  \<^verbatim>\<open>room.leave\<close> fails, and the user stays in the roster.
\<close>

theorem joinSocketToRoom_compensation_counterexample:
  "njoinedOf (idle\<lparr>fails := failing [JoinChannel, RemoveSocketFromRoom]\<rparr>) ''lobby'' = 0 \<and>
   joinSocketToRoom alice ''s1'' ''lobby'' True
       (idle\<lparr>fails := failing [JoinChannel, RemoveSocketFromRoom]\<rparr>) =
     (Rejected (Failure ''down''),
      snd (joinSocketToRoom alice ''s1'' ''lobby'' True
             (idle\<lparr>fails := failing [JoinChannel, RemoveSocketFromRoom]\<rparr>))) \<and>
   njoinedOf (snd (joinSocketToRoom alice ''s1'' ''lobby'' True
                     (idle\<lparr>fails := failing [JoinChannel, RemoveSocketFromRoom]\<rparr>))) ''lobby'' = 1 \<and>
   njoinedOf (inLobby\<lparr>fails := failing [JoinChannel]\<rparr>) ''lobby'' = 1 \<and>
   njoinedOf (snd (joinSocketToRoom alice ''s1'' ''lobby'' True
                     (inLobby\<lparr>fails := failing [JoinChannel]\<rparr>))) ''lobby'' = 0 \<and>
   njoinedOf (snd (joinSocketToRoom alice ''s1'' ''lobby'' True
                     (idle\<lparr>fails := failing [JoinChannel, RoomLeave]\<rparr>))) ''lobby'' = 0 \<and>
   (''lobby'', ''alice'') \<in> set (roster (snd (joinSocketToRoom alice ''s1'' ''lobby'' True
                     (idle\<lparr>fails := failing [JoinChannel, RoomLeave]\<rparr>))))"
  by (simp add: run_defs inLobby_def failing_def prod_eq_iff)

text \<open>
  C1, amended. For every \<^verbatim>\<open>joinSocketToRoom\<close> execution that reaches its third step (lock
  taken, room found, roster joined) and in which one of the three concurrent operations
  fails:
  \<^item> the call rejects with the error of that operation, whatever the compensation does;
  \<^item> when the compensating removal succeeds and the socket was not in the room before the
    join, the shared-store count of the user in the room is the one before the join;
  \<^item> when the compensating removal succeeds and shows that \<open>njoined\<close> is 0, and the room
    lookup and \<^verbatim>\<open>room.leave\<close> of the roster removal succeed, the user is not in the room's
    roster afterwards.
\<close>

theorem joinSocketToRoom_compensation:
  assumes "rn \<notin> set (locks w)"
    and "fails w LockToRoom (calls w LockToRoom) = None"
    and "fails w GetRoom (calls w GetRoom) = None"
    and "fails w RoomJoin (calls w RoomJoin) = None"
    and "step3Error w = Some e"
  shows
   "fst (joinSocketToRoom this i rn isLocalCall w) = Rejected e \<and>
    (fails w RemoveSocketFromRoom (calls w RemoveSocketFromRoom) = None \<and>
     (i, rn) \<notin> set (joined w) \<longrightarrow>
       njoinedOf (snd (joinSocketToRoom this i rn isLocalCall w)) rn = njoinedOf w rn) \<and>
    (fails w RemoveSocketFromRoom (calls w RemoveSocketFromRoom) = None \<and>
     njoinedOf (w\<lparr>joined := removeAll (i, rn) (joined w)\<rparr>) rn = 0 \<and>
     fails w GetRoom (Suc (calls w GetRoom)) = None \<and>
     fails w RoomLeave (calls w RoomLeave) = None \<longrightarrow>
       (rn, userName this) \<notin> set (roster (snd (joinSocketToRoom this i rn isLocalCall w))))"
proof -
  from joinSocketToRoom_failed[where this = this and i = i and isLocalCall = isLocalCall, OF assms]
  obtain w3 where
    run: "joinSocketToRoom this i rn isLocalCall w =
           (Rejected e, unlock rn (snd (rollbackRoomJoin this e rn i w3 :: nat outcome \<times> world)))" and
    fr: "fails w3 = fails w"
        "roster w3 = List.insert (rn, userName this) (roster w)"
        "calls w3 RemoveSocketFromRoom = calls w RemoveSocketFromRoom"
        "calls w3 GetRoom = Suc (calls w GetRoom)" "calls w3 RoomLeave = calls w RoomLeave" and
    j3: "joined w3 =
              (case fails w AddSocketToRoom (calls w AddSocketToRoom) of
                 Some e \<Rightarrow> joined w
               | None \<Rightarrow> List.insert (i, rn) (joined w))"
    by blast
  have removed: "removeAll (i, rn) (joined w3) = removeAll (i, rn) (joined w)"
    by (simp add: j3 removeAll_insert_same split: option.splits)
  have error: "fst (joinSocketToRoom this i rn isLocalCall w) = Rejected e"
    by (simp add: run)
  have count: "njoinedOf (snd (joinSocketToRoom this i rn isLocalCall w)) rn = njoinedOf w rn"
    if ok: "fails w RemoveSocketFromRoom (calls w RemoveSocketFromRoom) = None"
      and new: "(i, rn) \<notin> set (joined w)"
  proof -
    have "fails w3 RemoveSocketFromRoom (calls w3 RemoveSocketFromRoom) = None"
      using ok fr by simp
    from rollback_restores_count[where this = this and rn = rn and e = e and i = i, OF this]
    have "joined (snd (joinSocketToRoom this i rn isLocalCall w)) = joined w"
      using new by (simp add: run removed)
    then show ?thesis
      by (simp add: njoinedOf_def)
  qed
  have gone: "(rn, userName this) \<notin> set (roster (snd (joinSocketToRoom this i rn isLocalCall w)))"
    if ok: "fails w RemoveSocketFromRoom (calls w RemoveSocketFromRoom) = None"
      and zero: "njoinedOf (w\<lparr>joined := removeAll (i, rn) (joined w)\<rparr>) rn = 0"
      and look: "fails w GetRoom (Suc (calls w GetRoom)) = None"
      and leave: "fails w RoomLeave (calls w RoomLeave) = None"
  proof -
    have a: "fails w3 RemoveSocketFromRoom (calls w3 RemoveSocketFromRoom) = None"
      using ok fr by simp
    have b: "njoinedOf (w3\<lparr>joined := removeAll (i, rn) (joined w3)\<rparr>) rn = 0"
      using zero by (simp add: njoinedOf_def removed)
    have c: "fails w3 GetRoom (calls w3 GetRoom) = None"
      using look fr by simp
    have d: "fails w3 RoomLeave (calls w3 RoomLeave) = None"
      using leave fr by simp
    from rollback_leaves_roster[where this = this and e = e, OF a b c d]
    show ?thesis
      by (simp add: run fr)
  qed
  show ?thesis
    using error count gone by blast
qed

text \<open>The transport subscription of the first socket fails and the compensation works:
  the call rejects with the transport's error, the count is 0 as before, and the user is
  not in the roster.\<close>

theorem joinSocketToRoom_compensation_witness:
  "''lobby'' \<notin> set (locks (idle\<lparr>fails := failing [JoinChannel]\<rparr>)) \<and>
   step3Error (idle\<lparr>fails := failing [JoinChannel]\<rparr>) = Some (Failure ''down'') \<and>
   fst (joinSocketToRoom alice ''s1'' ''lobby'' True (idle\<lparr>fails := failing [JoinChannel]\<rparr>)) =
     Rejected (Failure ''down'') \<and>
   njoinedOf (snd (joinSocketToRoom alice ''s1'' ''lobby'' True
                     (idle\<lparr>fails := failing [JoinChannel]\<rparr>))) ''lobby'' =
     njoinedOf (idle\<lparr>fails := failing [JoinChannel]\<rparr>) ''lobby'' \<and>
   (''lobby'', userName alice) \<notin> set (roster (snd (joinSocketToRoom alice ''s1'' ''lobby'' True
                     (idle\<lparr>fails := failing [JoinChannel]\<rparr>))))"
proof -
  let ?w = "idle\<lparr>fails := failing [JoinChannel]\<rparr>"
  have free: "''lobby'' \<notin> set (locks ?w)"
    by (simp add: idle_def)
  have ok: "fails ?w LockToRoom (calls ?w LockToRoom) = None"
    "fails ?w GetRoom (calls ?w GetRoom) = None"
    "fails ?w RoomJoin (calls ?w RoomJoin) = None"
    by (simp_all add: idle_def failing_def)
  have err: "step3Error ?w = Some (Failure ''down'')"
    by (simp add: step3Error_def idle_def failing_def)
  have env: "fails ?w RemoveSocketFromRoom (calls ?w RemoveSocketFromRoom) = None"
    "(''s1'', ''lobby'') \<notin> set (joined ?w)"
    "njoinedOf (?w\<lparr>joined := removeAll (''s1'', ''lobby'') (joined ?w)\<rparr>) ''lobby'' = 0"
    "fails ?w GetRoom (Suc (calls ?w GetRoom)) = None"
    "fails ?w RoomLeave (calls ?w RoomLeave) = None"
    by (simp_all add: idle_def failing_def njoinedOf_def)
  show ?thesis
    using free err env
      joinSocketToRoom_compensation[where this = alice and i = "''s1''" and isLocalCall = True,
        OF free ok err]
    by blast
qed

section \<open>Disconnect cleanup\<close>

lemma thenP_step:
  assumes "never_rejects m" and "keeps P m" and "P w"
  shows "\<exists>x w1. m w = (Resolved x, w1) \<and> P w1 \<and> thenP m f w = f x w1"
proof -
  from never_rejectsD[OF assms(1), of w] obtain x w1 where r: "m w = (Resolved x, w1)"
    by blast
  have "P w1"
    using keepsD[OF assms(2,3)] r by simp
  then show ?thesis
    using r by (simp add: thenP_def)
qed

lemma catchP_thenP_first:
  "m w = (Resolved v, w1) \<Longrightarrow> catchP (thenP m k) h w = catchP (k v) h w1"
  by (simp add: catchP_def thenP_def)

lemma catchP_cong_run: "m w = m' w' \<Longrightarrow> catchP m h w = catchP m' h w'"
  by (simp add: catchP_def)

text \<open>Three steps that never reject and keep a property, before a last step.\<close>

lemma cleanup_chain:
  assumes "never_rejects A" "keeps P A" "never_rejects B" "keeps P B"
    and "\<And>x. P x \<Longrightarrow> P (c x)" and "P w1"
  shows "\<exists>w4. P w4 \<and>
     catchP (thenP A (\<lambda>u. thenP B (\<lambda>u. thenP (sync c) (\<lambda>u. D)))) h w1 = catchP D h w4"
proof -
  from thenP_step[OF assms(1,2,6)] obtain x w2 where
    a: "P w2" "thenP A (\<lambda>u. thenP B (\<lambda>u. thenP (sync c) (\<lambda>u. D))) w1 =
                thenP B (\<lambda>u. thenP (sync c) (\<lambda>u. D)) w2"
    by blast
  from thenP_step[OF assms(3,4) a(1)] obtain y w3 where
    b: "P w3" "thenP B (\<lambda>u. thenP (sync c) (\<lambda>u. D)) w2 = thenP (sync c) (\<lambda>u. D) w3"
    by blast
  have c: "thenP (sync c) (\<lambda>u. D) w3 = D (c w3)"
    by (simp add: thenP_def sync_def)
  have "P (c w3)"
    using assms(5) b(1) by simp
  moreover have "catchP (thenP A (\<lambda>u. thenP B (\<lambda>u. thenP (sync c) (\<lambda>u. D)))) h w1 =
      catchP D h (c w3)"
    by (rule catchP_cong_run) (simp add: a(2) b(2) c)
  ultimately show ?thesis by blast
qed

lemma keeps_cleanupFrame_socketLeaveChannels:
  "keeps (cleanupFrame w) (socketLeaveChannels this i rooms)"
  unfolding socketLeaveChannels_def leaveChannel_def transport_leaveChannel_def Let_def
  by (intro keeps_intros; simp add: cleanupFrame_def tick_def report_defs Let_def)

lemma keeps_cleanupFrame_rooms:
  "keeps (cleanupFrame w) (Promise_map rooms (removeUserSocket_room this i counts))"
  unfolding removeUserSocket_room_def leaveRoom_def getNotifySettings_def
    state_getRoom_def room_leave_def room_getNotificationsInfo_def Let_def
  by (intro keeps_intros; simp add: cleanupFrame_def tick_def report_defs Let_def)

lemma nr_socketLeaveChannels: "never_rejects (socketLeaveChannels this i rooms)"
  unfolding socketLeaveChannels_def by (intro nr_map nr_leaveChannel)

lemma nr_removeUserSocket_room: "never_rejects (removeUserSocket_room this i counts rn idx)"
  unfolding removeUserSocket_room_def Let_def
  by (intro nr_thenP nr_sync nr_if nr_resolve nr_leaveRoom nr_getNotifySettings)

lemma nr_rooms: "never_rejects (Promise_map rooms (removeUserSocket_room this i counts))"
  by (intro nr_map nr_removeUserSocket_room)

lemma removeUserSocket_resolves: "\<exists>w'. removeUserSocket this i w = (Resolved (), w')"
  using never_rejectsD[OF nr_removeUserSocket, of this i w] by simp

text \<open>When the shared-store removal fails, the handler reports it and nothing else runs.\<close>

lemma removeUserSocket_store_fails:
  assumes "fails w UserStateRemoveSocket (calls w UserStateRemoveSocket) = Some e"
  shows "removeUserSocket this i w =
     (Resolved (),
      consistencyFailure this e
        \<lparr>roomName = None, id' = Some i, opType = ''userSockets'', userName' = None\<rparr>
        (tick UserStateRemoveSocket w))"
  using assms
  by (simp add: removeUserSocket_def catchP_def thenP_def userState_removeSocket_def
      call_def sync_def Let_def)

text \<open>When it succeeds, the channel leaves and the per-room cleanup run, and the
  bookkeeping removal is called in a world \<open>w4\<close> that they have left in the frame.\<close>

lemma removeUserSocket_store_ok:
  assumes "userState_removeSocket i w = (Resolved (rooms, counts, n), w1)"
  shows "\<exists>w4. cleanupFrame w1 w4 \<and>
     removeUserSocket this i w =
       catchP (state_removeSocket i)
         (\<lambda>e. let info = \<lparr>roomName = None, id' = Some i, opType = ''userSockets'', userName' = None\<rparr>
              in sync (consistencyFailure this e info)) w4"
proof -
  let ?h = "\<lambda>e. let info = \<lparr>roomName = None, id' = Some i, opType = ''userSockets'', userName' = None\<rparr>
              in sync (consistencyFailure this e info)"
  have start: "cleanupFrame w1 w1"
    by (simp add: cleanupFrame_def)
  have echo: "\<And>x. cleanupFrame w1 x \<Longrightarrow> cleanupFrame w1 (socketDisconnectEcho i n x)"
    by (simp add: cleanupFrame_def report_defs)
  from cleanup_chain[where A = "socketLeaveChannels this i rooms" and P = "cleanupFrame w1"
      and B = "Promise_map rooms (removeUserSocket_room this i counts)"
      and c = "socketDisconnectEcho i n" and D = "state_removeSocket i" and h = ?h and ?w1.0 = w1,
      OF nr_socketLeaveChannels keeps_cleanupFrame_socketLeaveChannels
      nr_rooms keeps_cleanupFrame_rooms echo start]
  obtain w4 where
    f: "cleanupFrame w1 w4" and
    r: "catchP (thenP (socketLeaveChannels this i rooms) (\<lambda>u.
           thenP (Promise_map rooms (removeUserSocket_room this i counts)) (\<lambda>u.
           thenP (sync (socketDisconnectEcho i n)) (\<lambda>u. state_removeSocket i)))) ?h w1 =
         catchP (state_removeSocket i) ?h w4"
    by blast
  show ?thesis
    unfolding removeUserSocket_def
    by (subst catchP_thenP_first[where m = "userState_removeSocket i" and w = w, OF assms])
       (use f r in auto)
qed

lemma userState_removeSocket_ok:
  assumes "fails w UserStateRemoveSocket (calls w UserStateRemoveSocket) = None"
  shows "\<exists>rooms counts n w1.
     userState_removeSocket i w = (Resolved (rooms, counts, n), w1) \<and>
     fails w1 = fails w \<and> calls w1 StateRemoveSocket = calls w StateRemoveSocket \<and>
     emitted w1 = emitted w \<and> registry w1 = registry w \<and>
     connected w1 = removeAll i (connected w)"
  using assms
  by (simp add: userState_removeSocket_def call_def tick_def Let_def)

lemma removeUserSocket_last:
  assumes "fails w4 StateRemoveSocket (calls w4 StateRemoveSocket) = f"
  shows "catchP (state_removeSocket i)
         (\<lambda>e. let info = \<lparr>roomName = None, id' = Some i, opType = ''userSockets'', userName' = None\<rparr>
              in sync (consistencyFailure this e info)) w4 =
     (Resolved (),
      case f of
        Some e \<Rightarrow> consistencyFailure this e
            \<lparr>roomName = None, id' = Some i, opType = ''userSockets'', userName' = None\<rparr>
            (tick StateRemoveSocket w4)
      | None \<Rightarrow> (tick StateRemoveSocket w4)
            \<lparr>registry := filter (\<lambda>p. fst p \<noteq> i) (registry w4)\<rparr>)"
  using assms
  by (auto simp: catchP_def state_removeSocket_def call_def sync_def Let_def tick_def
      split: option.splits)

text \<open>The \<^verbatim>\<open>userSockets\<close> reports of a disconnect cleanup.\<close>

lemma removeUserSocket_reports:
  "filter isUserSocketsReport (emitted (snd (removeUserSocket this i w))) =
     filter isUserSocketsReport (emitted w) @
     (case fails w UserStateRemoveSocket (calls w UserStateRemoveSocket) of
        Some e \<Rightarrow>
          [ServerEmit ''storeConsistencyFailure'' e
             \<lparr>roomName = None, id' = Some i, opType = ''userSockets'',
              userName' = Some (userName this)\<rparr>]
      | None \<Rightarrow>
         (case fails w StateRemoveSocket (calls w StateRemoveSocket) of
            Some e \<Rightarrow>
              [ServerEmit ''storeConsistencyFailure'' e
                 \<lparr>roomName = None, id' = Some i, opType = ''userSockets'',
                  userName' = Some (userName this)\<rparr>]
          | None \<Rightarrow> []))"
proof (cases "fails w UserStateRemoveSocket (calls w UserStateRemoveSocket)")
  case (Some e)
  show ?thesis
    by (simp add: removeUserSocket_store_fails[OF Some] Some tick_def report_defs Let_def)
next
  case None
  from userState_removeSocket_ok[OF None, of i] obtain rooms counts n w1 where
    r: "userState_removeSocket i w = (Resolved (rooms, counts, n), w1)" and
    w1: "fails w1 = fails w" "calls w1 StateRemoveSocket = calls w StateRemoveSocket"
        "emitted w1 = emitted w"
    by blast
  from removeUserSocket_store_ok[OF r, of this] obtain w4 where
    f: "cleanupFrame w1 w4" and
    run: "removeUserSocket this i w =
       catchP (state_removeSocket i)
         (\<lambda>e. let info = \<lparr>roomName = None, id' = Some i, opType = ''userSockets'', userName' = None\<rparr>
              in sync (consistencyFailure this e info)) w4"
    by blast
  have last: "fails w4 StateRemoveSocket (calls w4 StateRemoveSocket) =
      fails w StateRemoveSocket (calls w StateRemoveSocket)"
    using f w1 by (simp add: cleanupFrame_def)
  have old: "filter isUserSocketsReport (emitted w4) = filter isUserSocketsReport (emitted w)"
    using f w1 by (simp add: cleanupFrame_def)
  have fin: "removeUserSocket this i w =
     (Resolved (),
      case fails w StateRemoveSocket (calls w StateRemoveSocket) of
        Some e \<Rightarrow> consistencyFailure this e
            \<lparr>roomName = None, id' = Some i, opType = ''userSockets'', userName' = None\<rparr>
            (tick StateRemoveSocket w4)
      | None \<Rightarrow> (tick StateRemoveSocket w4)
            \<lparr>registry := filter (\<lambda>p. fst p \<noteq> i) (registry w4)\<rparr>)"
    unfolding run by (rule removeUserSocket_last[OF last])
  show ?thesis
    by (simp add: fin None old tick_def report_defs Let_def split: option.splits)
qed


text \<open>
  C7 fails as stated. In the first run the transport fails to leave the channel: the call
  resolves, and the error is reported as a transport consistency failure with operation
  type \<^verbatim>\<open>transportChannel\<close>, not \<^verbatim>\<open>userSockets\<close>. In the second run the room lookups of the
  per-room cleanup fail: the call resolves and nothing at all is reported.
\<close>

theorem removeUserSocket_reporting_counterexample:
  "fst (removeUserSocket alice ''s1'' (inLobby\<lparr>fails := failing [LeaveChannel]\<rparr>)) = Resolved () \<and>
   emitted (snd (removeUserSocket alice ''s1'' (inLobby\<lparr>fails := failing [LeaveChannel]\<rparr>))) =
     [ServerEmit ''transportConsistencyFailure'' (Failure ''down'')
        \<lparr>roomName = Some ''lobby'', id' = Some ''s1'', opType = ''transportChannel'',
         userName' = Some ''alice''\<rparr>,
      SocketLeftEcho ''s1'' ''lobby'' (Some 0) None,
      UserLeftRoomReport ''alice'' ''lobby'' (Some False),
      SocketDisconnectEcho ''s1'' 0] \<and>
   fst (removeUserSocket alice ''s1'' (inLobby\<lparr>fails := failing [GetRoom]\<rparr>)) = Resolved () \<and>
   emitted (snd (removeUserSocket alice ''s1'' (inLobby\<lparr>fails := failing [GetRoom]\<rparr>))) =
     [SocketLeftEcho ''s1'' ''lobby'' (Some 0) None,
      UserLeftRoomReport ''alice'' ''lobby'' None,
      SocketDisconnectEcho ''s1'' 0]"
  by (simp add: run_defs inLobby_def failing_def)

text \<open>
  C7, amended. Every \<^verbatim>\<open>removeUserSocket\<close> execution resolves, whatever its sub-steps do.
  An error of the shared-store socket removal, or of the final bookkeeping removal, is
  reported once through the consistency-failure channel, with operation type
  \<^verbatim>\<open>userSockets\<close> and the socket id. The call emits no other \<^verbatim>\<open>userSockets\<close> report: the
  errors of the channel leaves and of the per-room cleanup are handled inside those
  sub-steps.
\<close>

theorem removeUserSocket_reporting:
  "(\<exists>w'. removeUserSocket this i w = (Resolved (), w')) \<and>
   filter isUserSocketsReport (emitted (snd (removeUserSocket this i w))) =
     filter isUserSocketsReport (emitted w) @
     (case fails w UserStateRemoveSocket (calls w UserStateRemoveSocket) of
        Some e \<Rightarrow>
          [ServerEmit ''storeConsistencyFailure'' e
             \<lparr>roomName = None, id' = Some i, opType = ''userSockets'',
              userName' = Some (userName this)\<rparr>]
      | None \<Rightarrow>
         (case fails w StateRemoveSocket (calls w StateRemoveSocket) of
            Some e \<Rightarrow>
              [ServerEmit ''storeConsistencyFailure'' e
                 \<lparr>roomName = None, id' = Some i, opType = ''userSockets'',
                  userName' = Some (userName this)\<rparr>]
          | None \<Rightarrow> []))"
  using removeUserSocket_resolves[of this i w] removeUserSocket_reports[of this i w]
  by blast

section \<open>Registering a socket\<close>



section \<open>The per-room cleanup of a disconnect\<close>

subsection \<open>A fan-out, one worker after the other\<close>










subsection \<open>Views of the events\<close>



subsection \<open>One room\<close>







subsection \<open>All rooms\<close>








end
